theory Spec2Isabelle
  imports Complex_Main
begin

section \<open>Numbers, vectors and meshes\<close>

text \<open>
  The filter \<^verbatim>\<open>SRSFilterLogic.ApplySRSFilter\<close> works on VTK poly data with numpy
  vectors. Coordinates are modelled as real numbers; a 3-vector is a triple. Where the
  source divides by a norm without a guard, numpy's result for a zero divisor (an array of
  nan, with a warning and no exception) is modelled by \<open>None\<close>.
\<close>

type_synonym vec3 = "real \<times> real \<times> real"

fun vadd :: "vec3 \<Rightarrow> vec3 \<Rightarrow> vec3" where
  "vadd (a, b, c) (x, y, z) = (a + x, b + y, c + z)"

fun vsub :: "vec3 \<Rightarrow> vec3 \<Rightarrow> vec3" where
  "vsub (a, b, c) (x, y, z) = (a - x, b - y, c - z)"

fun vscale :: "vec3 \<Rightarrow> real \<Rightarrow> vec3" where
  "vscale (a, b, c) k = (a * k, b * k, c * k)"

fun vdivide :: "vec3 \<Rightarrow> real \<Rightarrow> vec3" where
  "vdivide (a, b, c) k = (a / k, b / k, c / k)"

fun vdot :: "vec3 \<Rightarrow> vec3 \<Rightarrow> real" where
  "vdot (a, b, c) (x, y, z) = a * x + b * y + c * z"

text \<open>\<^verbatim>\<open>np.linalg.norm\<close> of a 3-vector.\<close>

fun vnorm :: "vec3 \<Rightarrow> real" where
  "vnorm (a, b, c) = sqrt (a * a + b * b + c * c)"

definition vzero :: vec3 where
  "vzero = (0, 0, 0)"

text \<open>
  A numpy vector that may be non-finite: \<open>None\<close> stands for the array numpy returns
  when a vector is divided by the scalar \<open>0.0\<close> (every component nan for the zero
  vector), which then propagates through every later product and sum.
\<close>

type_synonym npvec = "vec3 option"

definition np_divide :: "vec3 \<Rightarrow> real \<Rightarrow> npvec" where
  "np_divide v k = (if k = 0 then None else Some (vdivide v k))"

text \<open>The Python exceptions the modelled code can raise.\<close>

datatype pyerror = ValueError | KeyError | IndexError | ZeroDivisionError

text \<open>
  A cell is its VTK cell type and its point ids; type 5 is \<^verbatim>\<open>VTK_TRIANGLE\<close>.
  A poly data object is its point array and its cells in cell-id order.
\<close>

type_synonym cell = "nat \<times> nat list"

record polydata =
  points :: "vec3 list"
  cells :: "cell list"

text \<open>\<^verbatim>\<open>cell.GetPoints().GetPoint(p)\<close> for every \<open>p\<close>: the coordinates of a cell's points.\<close>

definition cellPoints :: "polydata \<Rightarrow> cell \<Rightarrow> vec3 list" where
  "cellPoints pd c = map (\<lambda>i. points pd ! i) (snd c)"

text \<open>The data-model invariant of the spec: every face index references a vertex.\<close>

definition wellformed :: "polydata \<Rightarrow> bool" where
  "wellformed pd = list_all (\<lambda>c. list_all (\<lambda>i. i < length (points pd)) (snd c)) (cells pd)"

text \<open>
  \<^verbatim>\<open>GetPointCells(i)\<close>: the ids of the cells that use point \<open>i\<close>, in cell order
  (the links are built cell by cell).
\<close>

definition GetPointCells :: "polydata \<Rightarrow> nat \<Rightarrow> nat list" where
  "GetPointCells pd i = filter (\<lambda>c. i \<in> set (snd (cells pd ! c))) [0..<length (cells pd)]"

section \<open>First shrinkwrap: the vertex update (lines 531-553)\<close>

text \<open>
  \<^verbatim>\<open>
  vector = closestPoint - originPoint
  vectorLength = np.linalg.norm(vector)
  if options[ARG_OFFSETFIRSTSHRINKWRAP] > 0 and vectorLength > 0.01:
    newLocation = closestPoint - ((vector/vectorLength) * options[ARG_OFFSETFIRSTSHRINKWRAP])
  else:
    newLocation = closestPoint
  \<close>
\<close>

definition newLocation :: "real \<Rightarrow> vec3 \<Rightarrow> vec3 \<Rightarrow> vec3" where
  "newLocation offset originPoint closestPoint =
     (let vector = vsub closestPoint originPoint;
          vectorLength = vnorm vector
      in if offset > 0 \<and> vectorLength > 1 / 100
         then vsub closestPoint (vscale (vdivide vector vectorLength) offset)
         else closestPoint)"

text \<open>
  The loop over \<^verbatim>\<open>range(points.GetNumberOfPoints())\<close> writes each new location back
  with \<^verbatim>\<open>points.SetPoint(i, newLocation)\<close>; \<open>closest\<close> is the cell locator's
  \<^verbatim>\<open>FindClosestPoint\<close> on the input surface.
\<close>

definition shrinkwrapPoints :: "(vec3 \<Rightarrow> vec3) \<Rightarrow> real \<Rightarrow> vec3 list \<Rightarrow> vec3 list" where
  "shrinkwrapPoints closest offset pts =
     foldl (\<lambda>ps i. ps[i := newLocation offset (ps ! i) (closest (ps ! i))]) pts [0..<length pts]"

section \<open>The remesher's volume (remeshPolydata, lines 400-423)\<close>

text \<open>
  A \<^verbatim>\<open>vtkImageData\<close> is modelled by its spacing, extent and origin. An extent is
  inclusive at both ends: \<^verbatim>\<open>SetDimensions(i, j, k)\<close> is
  \<^verbatim>\<open>SetExtent(0, i-1, 0, j-1, 0, k-1)\<close>, \<^verbatim>\<open>GetDimensions\<close> returns
  \<open>max - min + 1\<close> per axis, and \<^verbatim>\<open>AllocateScalars\<close> allocates one scalar for
  every sample of the extent.
\<close>

record imageData =
  spacing :: "real list"
  extent :: "int list"
  origin :: "real list"

definition vtkImageData :: imageData where
  "vtkImageData = \<lparr>spacing = [1, 1, 1], extent = [0, -1, 0, -1, 0, -1], origin = [0, 0, 0]\<rparr>"

definition SetExtent :: "int list \<Rightarrow> imageData \<Rightarrow> imageData" where
  "SetExtent e img = img\<lparr>extent := e\<rparr>"

definition SetDimensions :: "int list \<Rightarrow> imageData \<Rightarrow> imageData" where
  "SetDimensions d img = SetExtent [0, d ! 0 - 1, 0, d ! 1 - 1, 0, d ! 2 - 1] img"

definition GetDimensions :: "imageData \<Rightarrow> int list" where
  "GetDimensions img =
     [extent img ! 1 - extent img ! 0 + 1,
      extent img ! 3 - extent img ! 2 + 1,
      extent img ! 5 - extent img ! 4 + 1]"

text \<open>
  \<^verbatim>\<open>
  dim[i] = int(math.ceil((bounds[i * 2 + 1] - bounds[i * 2]) / spacing[i])) + 1
  if (dim[i] < 1):
    dim[i] = 1
  \<close>
  \<open>bounds\<close> is the list \<^verbatim>\<open>GetBounds\<close> filled; a zero spacing makes Python's
  float division raise.
\<close>

definition remeshDim :: "real list \<Rightarrow> real list \<Rightarrow> nat \<Rightarrow> pyerror + int" where
  "remeshDim bounds sp i =
     (if sp ! i = 0 then Inl ZeroDivisionError
      else let d = \<lceil>(bounds ! (i * 2 + 1) - bounds ! (i * 2)) / sp ! i\<rceil> + 1
           in Inr (if d < 1 then 1 else d))"

definition remeshDims :: "real list \<Rightarrow> real list \<Rightarrow> pyerror + int list" where
  "remeshDims bounds sp =
     (case remeshDim bounds sp 0 of Inl e \<Rightarrow> Inl e | Inr d0 \<Rightarrow>
      (case remeshDim bounds sp 1 of Inl e \<Rightarrow> Inl e | Inr d1 \<Rightarrow>
       (case remeshDim bounds sp 2 of Inl e \<Rightarrow> Inl e | Inr d2 \<Rightarrow> Inr [d0, d1, d2])))"

text \<open>
  The image as it is when \<^verbatim>\<open>AllocateScalars\<close> is called: the spacing set, the
  dimensions set from \<open>dim\<close>, then the extent overwritten by
  \<^verbatim>\<open>SetExtent(0, dim[0], 0, dim[1], 0, dim[2])\<close>, then the origin set to the lower
  bounds.
\<close>

definition whiteImage :: "real list \<Rightarrow> real list \<Rightarrow> pyerror + imageData" where
  "whiteImage bounds sp =
     (case remeshDims bounds sp of
        Inl e \<Rightarrow> Inl e
      | Inr dims \<Rightarrow>
          Inr ((SetExtent [0, dims ! 0, 0, dims ! 1, 0, dims ! 2]
                 (SetDimensions dims (vtkImageData\<lparr>spacing := sp\<rparr>)))
               \<lparr>origin := [bounds ! 0, bounds ! 2, bounds ! 4]\<rparr>))"

section \<open>Raycast: large faces (lines 586-601)\<close>

text \<open>
  \<^verbatim>\<open>
  edgeLength = list()
  for pa in range(len(pointsArray) - 1):
    length = np.linalg.norm(pointsArray[pa] - pointsArray[pa + 1])
    edgeLength.append(length)
  if max(edgeLength) > options[ARG_RAYCASTSEARCHEDGELENGTH]:
    largeCellIds.InsertNextId(i)
  \<close>
  \<^verbatim>\<open>max\<close> of an empty list raises \<^verbatim>\<open>ValueError\<close>.
\<close>

definition edgeLength :: "vec3 list \<Rightarrow> real list" where
  "edgeLength pointsArray =
     map (\<lambda>pa. vnorm (vsub (pointsArray ! pa) (pointsArray ! (pa + 1))))
       [0..<length pointsArray - 1]"

fun pymax :: "real list \<Rightarrow> pyerror + real" where
  "pymax [] = Inl ValueError"
| "pymax (x # xs) = Inr (foldl max x xs)"

fun largeCellLoop :: "polydata \<Rightarrow> real \<Rightarrow> nat list \<Rightarrow> nat list \<Rightarrow> pyerror + nat list" where
  "largeCellLoop pd searchEdgeLength [] largeCellIds = Inr largeCellIds"
| "largeCellLoop pd searchEdgeLength (i # is) largeCellIds =
     (case pymax (edgeLength (cellPoints pd (cells pd ! i))) of
        Inl e \<Rightarrow> Inl e
      | Inr m \<Rightarrow>
          largeCellLoop pd searchEdgeLength is
            (if m > searchEdgeLength then largeCellIds @ [i] else largeCellIds))"

definition findLargeCells :: "polydata \<Rightarrow> real \<Rightarrow> pyerror + nat list" where
  "findLargeCells pd searchEdgeLength =
     largeCellLoop pd searchEdgeLength [0..<length (cells pd)] []"

text \<open>
  The spec's wording, for comparison: the edges of a face include the closing edge from
  its last vertex back to its first.
\<close>

definition allEdgeLengths :: "vec3 list \<Rightarrow> real list" where
  "allEdgeLengths ps = map (\<lambda>k. vnorm (vsub (ps ! k) (ps ! ((k + 1) mod length ps)))) [0..<length ps]"

section \<open>Cap removal (lines 805-816)\<close>

text \<open>
  \<^verbatim>\<open>
  for c in range(nonsolidPolyData.GetNumberOfCells()):
    cell = nonsolidPolyData.GetCell(c)
    points = cell.GetPoints()
    for p in range(points.GetNumberOfPoints()):
      point = points.GetPoint(p)
      distance = implicitDistance.EvaluateFunction(point)
      if abs(distance) > options[ARG_MAXMODELSDISTANCE]:
        nonsolidPolyData.DeleteCell(c)
        break
  nonsolidPolyData.RemoveDeletedCells()
  \<close>
  The inner loop stops at the first far vertex; \<^verbatim>\<open>DeleteCell\<close> marks the cell and
  \<^verbatim>\<open>RemoveDeletedCells\<close> drops the marked cells, keeping the others in order and
  leaving the point array as it is.
\<close>

fun farVertex :: "(vec3 \<Rightarrow> real) \<Rightarrow> real \<Rightarrow> vec3 list \<Rightarrow> bool" where
  "farVertex distance maxModelDistance [] = False"
| "farVertex distance maxModelDistance (point # ps) =
     (if \<bar>distance point\<bar> > maxModelDistance then True
      else farVertex distance maxModelDistance ps)"

definition deletedCells :: "(vec3 \<Rightarrow> real) \<Rightarrow> real \<Rightarrow> polydata \<Rightarrow> nat list" where
  "deletedCells distance maxModelDistance pd =
     filter (\<lambda>c. farVertex distance maxModelDistance (cellPoints pd (cells pd ! c)))
       [0..<length (cells pd)]"

definition RemoveDeletedCells :: "nat list \<Rightarrow> polydata \<Rightarrow> polydata" where
  "RemoveDeletedCells deleted pd =
     pd\<lparr>cells := map (\<lambda>c. cells pd ! c) (filter (\<lambda>c. c \<notin> set deleted) [0..<length (cells pd)])\<rparr>"

definition removeCapCells :: "(vec3 \<Rightarrow> real) \<Rightarrow> real \<Rightarrow> polydata \<Rightarrow> polydata" where
  "removeCapCells distance maxModelDistance pd =
     RemoveDeletedCells (deletedCells distance maxModelDistance pd) pd"

section \<open>Raycast: projection and relocation (lines 662-732)\<close>

text \<open>
  \<^verbatim>\<open>vert_location_dict\<close> maps a point id to \<open>(res, loc_new, length)\<close>: whether the
  ray hit, the hit point and the distance from the vertex to it.
\<close>

type_synonym hit = "bool \<times> vec3 \<times> real"

text \<open>
  One ray (lines 679-704). \<open>intersect a0 a1 tol\<close> is the value of \<^verbatim>\<open>glo\<close> after
  \<^verbatim>\<open>cellLocator.IntersectWithLine(a0, a1, tol, t, glo, ...)\<close>; \<^verbatim>\<open>glo\<close> starts as the
  zero vector, and a result whose norm is 0 counts as no hit.
\<close>

definition castRay ::
  "(vec3 \<Rightarrow> vec3 \<Rightarrow> real \<Rightarrow> vec3) \<Rightarrow> vec3 list \<Rightarrow> real \<Rightarrow> polydata \<Rightarrow> nat \<Rightarrow> hit" where
  "castRay intersect normals maxLength pd pointId =
     (let normal = vscale (normals ! pointId) (- 1);
          vector = vscale normal maxLength;
          a0 = points pd ! pointId;
          a1 = vadd a0 vector;
          glo = intersect a0 a1 1
      in (vnorm glo \<noteq> 0, glo, vnorm (vsub glo a0)))"

text \<open>
  The body of the loop over a triangle's points (lines 670-704): a point that is not a
  candidate, or whose recorded result is already \<open>False\<close>, gets the dummy entry;
  any other point is raycast.
\<close>

definition projectPoint ::
  "(vec3 \<Rightarrow> vec3 \<Rightarrow> real \<Rightarrow> vec3) \<Rightarrow> vec3 list \<Rightarrow> nat list \<Rightarrow> real \<Rightarrow> polydata \<Rightarrow>
   (nat \<rightharpoonup> hit) \<Rightarrow> nat \<Rightarrow> (nat \<rightharpoonup> hit)" where
  "projectPoint intersect normals largePointIds maxLength pd d pointId =
     (if pointId \<notin> set largePointIds \<or>
         (case d pointId of None \<Rightarrow> False | Some h \<Rightarrow> fst h = False)
      then d(pointId \<mapsto> (False, (0, 0, 0), 0))
      else d(pointId \<mapsto> castRay intersect normals maxLength pd pointId))"

definition vert_location_dict ::
  "(vec3 \<Rightarrow> vec3 \<Rightarrow> real \<Rightarrow> vec3) \<Rightarrow> vec3 list \<Rightarrow> nat list \<Rightarrow> real \<Rightarrow> polydata \<Rightarrow>
   (nat \<rightharpoonup> hit)" where
  "vert_location_dict intersect normals largePointIds maxLength pd =
     foldl (\<lambda>d c. if fst c = 5
                   then foldl (projectPoint intersect normals largePointIds maxLength pd) d (snd c)
                   else d)
       Map.empty (cells pd)"

text \<open>
  The relocation loop (lines 706-732). The two inner loops stop as soon as
  \<^verbatim>\<open>pointChanged\<close> is set; a point id missing from the dictionary raises
  \<^verbatim>\<open>KeyError\<close>. The result of the inner loops is the final \<^verbatim>\<open>pointChanged\<close>.
\<close>

fun pointLoop :: "(nat \<rightharpoonup> hit) \<Rightarrow> real \<Rightarrow> nat \<Rightarrow> vec3 \<Rightarrow> nat list \<Rightarrow> pyerror + bool" where
  "pointLoop d maxHitDistance i loc [] = Inr False"
| "pointLoop d maxHitDistance i loc (pointId # ps) =
     (if pointId \<noteq> i
      then (case d pointId of
              None \<Rightarrow> Inl KeyError
            | Some h \<Rightarrow>
                if fst h = True \<and> vnorm (vadd (vscale loc (- 1)) (fst (snd h))) < maxHitDistance
                then Inr True
                else pointLoop d maxHitDistance i loc ps)
      else pointLoop d maxHitDistance i loc ps)"

fun cellLoop ::
  "(nat \<rightharpoonup> hit) \<Rightarrow> real \<Rightarrow> polydata \<Rightarrow> nat \<Rightarrow> vec3 \<Rightarrow> nat list \<Rightarrow> pyerror + bool" where
  "cellLoop d maxHitDistance pd i loc [] = Inr False"
| "cellLoop d maxHitDistance pd i loc (c # cs) =
     (case pointLoop d maxHitDistance i loc (snd (cells pd ! c)) of
        Inl e \<Rightarrow> Inl e
      | Inr pointChanged \<Rightarrow>
          if pointChanged then Inr True else cellLoop d maxHitDistance pd i loc cs)"

definition relocatePoint ::
  "(nat \<rightharpoonup> hit) \<Rightarrow> real \<Rightarrow> real \<Rightarrow> polydata \<Rightarrow> nat \<Rightarrow> pyerror + polydata" where
  "relocatePoint d minLength maxHitDistance pd i =
     (case d i of
        None \<Rightarrow> Inl KeyError
      | Some h \<Rightarrow>
          if fst h = True \<and> snd (snd h) > minLength
          then (case cellLoop d maxHitDistance pd i (fst (snd h)) (GetPointCells pd i) of
                  Inl e \<Rightarrow> Inl e
                | Inr pointChanged \<Rightarrow>
                    Inr (if pointChanged then pd\<lparr>points := (points pd)[i := fst (snd h)]\<rparr> else pd))
          else Inr pd)"

fun relocateLoop ::
  "(nat \<rightharpoonup> hit) \<Rightarrow> real \<Rightarrow> real \<Rightarrow> polydata \<Rightarrow> nat list \<Rightarrow> pyerror + polydata" where
  "relocateLoop d minLength maxHitDistance pd [] = Inr pd"
| "relocateLoop d minLength maxHitDistance pd (i # is) =
     (case relocatePoint d minLength maxHitDistance pd i of
        Inl e \<Rightarrow> Inl e
      | Inr pd' \<Rightarrow> relocateLoop d minLength maxHitDistance pd' is)"

definition raycastRelocate ::
  "(nat \<rightharpoonup> hit) \<Rightarrow> real \<Rightarrow> real \<Rightarrow> polydata \<Rightarrow> pyerror + polydata" where
  "raycastRelocate d minLength maxHitDistance pd =
     relocateLoop d minLength maxHitDistance pd [0..<length (points pd)]"

text \<open>Projection followed by relocation: lines 662-732 on the mesh with its normals.\<close>

definition raycastVertices ::
  "(vec3 \<Rightarrow> vec3 \<Rightarrow> real \<Rightarrow> vec3) \<Rightarrow> vec3 list \<Rightarrow> nat list \<Rightarrow> real \<Rightarrow> real \<Rightarrow> real \<Rightarrow>
   polydata \<Rightarrow> pyerror + polydata" where
  "raycastVertices intersect normals largePointIds maxLength minLength maxHitDistance pd =
     raycastRelocate (vert_location_dict intersect normals largePointIds maxLength pd)
       minLength maxHitDistance pd"

text \<open>
  Vocabulary for the raycast claims. Two vertices are adjacent when a cell uses both. A
  vertex has a valid hit when its ray hit and the hit is farther than \<open>minLength\<close>
  (step 5 of the spec rejects the others).
\<close>

definition adjacent :: "polydata \<Rightarrow> nat \<Rightarrow> nat \<Rightarrow> bool" where
  "adjacent pd i j = (j \<noteq> i \<and> (\<exists>c \<in> set (cells pd). i \<in> set (snd c) \<and> j \<in> set (snd c)))"

definition validHit :: "(nat \<rightharpoonup> hit) \<Rightarrow> real \<Rightarrow> nat \<Rightarrow> bool" where
  "validHit d minLength j =
     (case d j of None \<Rightarrow> False | Some h \<Rightarrow> fst h \<and> snd (snd h) > minLength)"

text \<open>
  Vocabulary for the relocation loop: a neighbour's recorded hit lies near a hit point;
  a vertex is corroborated when an adjacent vertex has such a hit; a vertex is relocated
  when its own hit is valid and corroborated. \<open>dictOK\<close> is the invariant of the
  projection loop, \<open>dummyEntry\<close> the condition of its first branch, and
  \<open>rayHit\<close>, \<open>hitPoint\<close>, \<open>hitLength\<close> read one candidate's ray.
\<close>

definition hitNear :: "(nat \<rightharpoonup> hit) \<Rightarrow> real \<Rightarrow> vec3 \<Rightarrow> nat \<Rightarrow> bool" where
  "hitNear d m loc j =
     (case d j of None \<Rightarrow> False | Some h \<Rightarrow> fst h \<and> vnorm (vsub (fst (snd h)) loc) < m)"

definition corroborated :: "(nat \<rightharpoonup> hit) \<Rightarrow> real \<Rightarrow> polydata \<Rightarrow> nat \<Rightarrow> vec3 \<Rightarrow> bool" where
  "corroborated d m pd i loc = (\<exists>j. adjacent pd i j \<and> hitNear d m loc j)"

definition relocates :: "(nat \<rightharpoonup> hit) \<Rightarrow> real \<Rightarrow> real \<Rightarrow> polydata \<Rightarrow> nat \<Rightarrow> bool" where
  "relocates d minLength m pd i =
     (case d i of None \<Rightarrow> False
      | Some h \<Rightarrow> fst h \<and> snd (snd h) > minLength \<and> corroborated d m pd i (fst (snd h)))"

definition dictOK :: "(nat \<Rightarrow> hit) \<Rightarrow> nat list \<Rightarrow> (nat \<rightharpoonup> hit) \<Rightarrow> bool" where
  "dictOK ray large d =
     (\<forall>j h. d j = Some h \<longrightarrow>
        fst h = (j \<in> set large \<and> fst (ray j)) \<and> (fst h \<longrightarrow> h = ray j))"

definition dummyEntry :: "nat list \<Rightarrow> (nat \<rightharpoonup> hit) \<Rightarrow> nat \<Rightarrow> bool" where
  "dummyEntry large d j =
     (j \<notin> set large \<or> (case d j of None \<Rightarrow> False | Some h \<Rightarrow> fst h = False))"

definition rayHit ::
  "(vec3 \<Rightarrow> vec3 \<Rightarrow> real \<Rightarrow> vec3) \<Rightarrow> vec3 list \<Rightarrow> nat list \<Rightarrow> real \<Rightarrow> polydata \<Rightarrow> nat \<Rightarrow> bool" where
  "rayHit intersect normals largePointIds maxLength pd j =
     (j \<in> set largePointIds \<and> fst (castRay intersect normals maxLength pd j))"

definition hitPoint ::
  "(vec3 \<Rightarrow> vec3 \<Rightarrow> real \<Rightarrow> vec3) \<Rightarrow> vec3 list \<Rightarrow> real \<Rightarrow> polydata \<Rightarrow> nat \<Rightarrow> vec3" where
  "hitPoint intersect normals maxLength pd j = fst (snd (castRay intersect normals maxLength pd j))"

definition hitLength ::
  "(vec3 \<Rightarrow> vec3 \<Rightarrow> real \<Rightarrow> vec3) \<Rightarrow> vec3 list \<Rightarrow> real \<Rightarrow> polydata \<Rightarrow> nat \<Rightarrow> real" where
  "hitLength intersect normals maxLength pd j = snd (snd (castRay intersect normals maxLength pd j))"

section \<open>Solidification (lines 869-957)\<close>

text \<open>
  The inner vertex of one point (lines 869-896). \<open>cn\<close> is the cell-data array
  \<^verbatim>\<open>Normals\<close>. The division \<^verbatim>\<open>dir_vec / np.linalg.norm(dir_vec)\<close> has no guard;
  \<^verbatim>\<open>normalsArray[0]\<close> raises \<^verbatim>\<open>IndexError\<close> for a point no cell uses.
\<close>

definition vertex_neu :: "polydata \<Rightarrow> vec3 list \<Rightarrow> real \<Rightarrow> nat \<Rightarrow> pyerror + npvec" where
  "vertex_neu pd cn thickness pointID =
     (let normalsArray = map (\<lambda>cid. vscale (cn ! cid) (- 1)) (GetPointCells pd pointID);
          dir_vec = foldl vadd (0, 0, 0) normalsArray;
          dir_vec_norm = np_divide dir_vec (vnorm dir_vec)
      in case normalsArray of
           [] \<Rightarrow> Inl IndexError
         | n0 # _ \<Rightarrow>
             Inr (case dir_vec_norm of
                    None \<Rightarrow> None
                  | Some u \<Rightarrow>
                      Some (vadd (points pd ! pointID)
                             (vscale (vscale u (vdot u n0)) thickness))))"

fun addingPoints :: "polydata \<Rightarrow> vec3 list \<Rightarrow> real \<Rightarrow> nat list \<Rightarrow> pyerror + npvec list" where
  "addingPoints pd cn thickness [] = Inr []"
| "addingPoints pd cn thickness (pointID # ids) =
     (case vertex_neu pd cn thickness pointID of
        Inl e \<Rightarrow> Inl e
      | Inr v \<Rightarrow>
          (case addingPoints pd cn thickness ids of
             Inl e \<Rightarrow> Inl e
           | Inr vs \<Rightarrow> Inr (v # vs)))"

text \<open>
  The solid's mesh may hold non-finite points. A cell inserted into a poly array is a
  triangle (5), a quad (9) or a polygon (7) by its number of points.
\<close>

record outdata =
  opoints :: "npvec list"
  ocells :: "cell list"

definition toOut :: "polydata \<Rightarrow> outdata" where
  "toOut pd = \<lparr>opoints = map Some (points pd), ocells = cells pd\<rparr>"

definition polyCell :: "nat list \<Rightarrow> cell" where
  "polyCell ids = (if length ids = 3 then 5 else if length ids = 4 then 9 else 7, ids)"

definition GetPolys :: "polydata \<Rightarrow> cell list" where
  "GetPolys pd = filter (\<lambda>c. fst c = 5 \<or> fst c = 7 \<or> fst c = 9) (cells pd)"

text \<open>
  The inner shell (lines 898-921) and the quads on the boundary edges (lines 934-947).
  \<open>isInserted pts x\<close> is \<^verbatim>\<open>mergePoints.IsInsertedPoint(x)\<close> on the doubled point set,
  \<open>None\<close> for \<open>-1\<close>; \<open>edges\<close> is the output of \<^verbatim>\<open>vtkFeatureEdges\<close>.
\<close>

definition addingPolys :: "polydata \<Rightarrow> cell list" where
  "addingPolys pd =
     map (\<lambda>c. polyCell (map (\<lambda>i. i + length (points pd)) (rev (snd c)))) (cells pd)"

definition edgeQuads :: "(npvec list \<Rightarrow> vec3 \<Rightarrow> nat option) \<Rightarrow> npvec list \<Rightarrow> nat \<Rightarrow> polydata \<Rightarrow> cell list" where
  "edgeQuads isInserted pts numberOfPoints edges =
     concat (map (\<lambda>e.
        if length (snd e) = 2
        then (case (isInserted pts (points edges ! (snd e ! 0)),
                    isInserted pts (points edges ! (snd e ! 1))) of
                (Some m0, Some m1) \<Rightarrow>
                  [polyCell [m1, m0, m0 + numberOfPoints, m1 + numberOfPoints]]
              | _ \<Rightarrow> [])
        else []) (cells edges))"

definition manifoldPD ::
  "(npvec list \<Rightarrow> vec3 \<Rightarrow> nat option) \<Rightarrow> real \<Rightarrow> polydata \<Rightarrow> vec3 list \<Rightarrow> polydata \<Rightarrow>
   pyerror + outdata" where
  "manifoldPD isInserted thickness pd cn edges =
     (case addingPoints pd cn thickness [0..<length (points pd)] of
        Inl e \<Rightarrow> Inl e
      | Inr inner \<Rightarrow>
          (let doubleSurfacePoints = map Some (points pd) @ inner;
               doubleSurfacePolys = GetPolys pd @ addingPolys pd
           in Inr \<lparr>opoints = doubleSurfacePoints,
                   ocells = doubleSurfacePolys @
                     edgeQuads isInserted doubleSurfacePoints (length (points pd)) edges\<rparr>))"

section \<open>The run: options, environment and state\<close>

text \<open>The string constants at the end of the source file.\<close>

definition OUTPUT_MODEL :: string where "OUTPUT_MODEL = ''MODEL''"
definition OUTPUT_SEGMENTATION :: string where "OUTPUT_SEGMENTATION = ''SEGMENTATION''"
definition MODE_CONVEXHULL :: string where "MODE_CONVEXHULL = ''CONVEXHULL''"
definition MODE_RAYCASTS :: string where "MODE_RAYCASTS = ''RAYCASTS''"
definition MODE_DEEPHULL :: string where "MODE_DEEPHULL = ''DEEPHULL''"
definition MODE_NONMANIFOLD :: string where "MODE_NONMANIFOLD = ''NONMANIFOLD''"
definition MODE_SOLIDIFIED :: string where "MODE_SOLIDIFIED = ''SOLIDIFIED''"

text \<open>
  The dictionary \<^verbatim>\<open>options\<close> after \<^verbatim>\<open>options.update(kwargs)\<close> (lines 335-353);
  \<open>defaultOptions\<close> is its value when no keyword argument is given.
\<close>

record options =
  outputType :: string
  filterMode :: string
  offsetFirstShrinkwrap :: real
  spacingFirstRemesh :: real
  spacingSecondRemesh :: real
  iterationsFirstShrinkwrap :: real
  iterationsSecondShrinkwrap :: real
  raycastSearchEdgeLength :: real
  raycastOutputEdgeLength :: real
  raycastMaxHitDistance :: real
  raycastMaxLength :: real
  raycastMinLength :: real
  maxModelDistance :: real
  solidificationThickness :: real
  smoothingFactor :: real

definition defaultOptions :: options where
  "defaultOptions =
     \<lparr>outputType = OUTPUT_MODEL, filterMode = MODE_SOLIDIFIED,
      offsetFirstShrinkwrap = 15, spacingFirstRemesh = 10, spacingSecondRemesh = 1,
      iterationsFirstShrinkwrap = 3, iterationsSecondShrinkwrap = 5,
      raycastSearchEdgeLength = 20, raycastOutputEdgeLength = 2, raycastMaxHitDistance = 2,
      raycastMaxLength = 100, raycastMinLength = 0, maxModelDistance = 7 / 10,
      solidificationThickness = 3 / 2, smoothingFactor = 1 / 5\<rparr>"

text \<open>Python's \<^verbatim>\<open>int()\<close> of a float truncates towards zero.\<close>

definition py_int :: "real \<Rightarrow> int" where
  "py_int x = (if x \<ge> 0 then \<lfloor>x\<rfloor> else \<lceil>x\<rceil>)"

text \<open>
  The texts passed to \<^verbatim>\<open>logCallback\<close>, in structured form:
  \<^verbatim>\<open>'Filtering process started...'\<close>, \<^verbatim>\<open>'Shrinkwrapping %s/%s...'\<close>,
  \<^verbatim>\<open>'Remeshing %s/%s...'\<close>, \<^verbatim>\<open>'Raycasting...'\<close>, \<^verbatim>\<open>'Removing Caps...'\<close>,
  \<^verbatim>\<open>'Solidifying...'\<close>, \<^verbatim>\<open>'Creating Model...'\<close>, \<^verbatim>\<open>'Updating Segmentation...'\<close>
  and the empty text of \<^verbatim>\<open>cleanup\<close>.
\<close>

datatype msg =
  Started | Shrinkwrapping int int | Remeshing int int | Raycasting | RemovingCaps
  | Solidifying | CreatingModel | UpdatingSegmentation | Cleared

text \<open>
  The calls the run makes on objects it does not own: the segmentation node, its
  segment and display node, and the models logic. \<open>SegmentDeepCopy\<close> is
  \<^verbatim>\<open>GetSegment(segmentID).DeepCopy(tempSegment)\<close> with the new surface,
  \<open>AddModel\<close> is \<^verbatim>\<open>modelsLogic.AddModel(polydata)\<close> with the naming and colouring of
  the new model node.
\<close>

datatype call =
  SetConversionParameter real | RemoveClosedSurfaceRepresentation
  | CreateClosedSurfaceRepresentation | Modified | UpdateScene
  | AddModel outdata | SegmentDeepCopy outdata

text \<open>
  What the run cannot compute by itself: the user's clicks on Cancel, delivered while a
  progress callback processes events (\<open>clicks k\<close>: a click arrives during the callback
  that is number \<open>k\<close> in the progress log), the host application and the VTK filters.
\<close>

record env =
  clicks :: "nat \<Rightarrow> bool"
  hasDisplayNode :: bool
  closedSurface :: "real \<Rightarrow> polydata"
  inputBounds :: "polydata \<Rightarrow> real list"
  GetBounds :: "polydata \<Rightarrow> real list"
  vtkSphereSource :: "real \<Rightarrow> int \<Rightarrow> vec3 \<Rightarrow> polydata"
  vtkCleanPolyData :: "polydata \<Rightarrow> polydata"
  FindClosestPoint :: "polydata \<Rightarrow> vec3 \<Rightarrow> vec3"
  stencilCubes :: "polydata \<Rightarrow> imageData \<Rightarrow> polydata"
  vtkAdaptiveSubdivisionFilter :: "real \<Rightarrow> polydata \<Rightarrow> polydata"
  vtkImplicitPolyDataDistance :: "polydata \<Rightarrow> vec3 \<Rightarrow> real"
  pointNormals :: "polydata \<Rightarrow> polydata \<times> vec3 list"
  IntersectWithLine :: "polydata \<Rightarrow> vec3 \<Rightarrow> vec3 \<Rightarrow> real \<Rightarrow> vec3"
  vtkSmoothPolyDataFilter :: "polydata \<Rightarrow> polydata \<Rightarrow> polydata"
  vtkWindowedSincPolyDataFilter :: "polydata \<Rightarrow> polydata"
  smoothOutput :: "outdata \<Rightarrow> outdata"
  cellNormals :: "polydata \<Rightarrow> polydata \<times> vec3 list"
  vtkFeatureEdges :: "polydata \<Rightarrow> polydata"
  IsInsertedPoint :: "npvec list \<Rightarrow> vec3 \<Rightarrow> nat option"
  vtkTriangleFilter :: "outdata \<Rightarrow> outdata"

text \<open>
  The state a run reads and writes: the cancel flag of the logic object, the progress
  texts shown so far, the messages given to \<^verbatim>\<open>logging.error\<close>, the calls made on the
  host's objects, and the poly data objects. Poly data objects live in a store, addressed
  by number; the Python variables \<^verbatim>\<open>inputPolyData\<close> and \<^verbatim>\<open>shrinkModelPD\<close> hold
  addresses, so that a write through one name is seen through every alias.
\<close>

record state =
  cancelRequested :: bool
  progress :: "msg list"
  errorLog :: "string list"
  calls :: "call list"
  store :: "nat \<Rightarrow> polydata"
  nextAddr :: nat
  inputPolyData :: nat
  shrinkModelPD :: nat

text \<open>A stage either falls through to the next one, returns from the function, or raises.\<close>

datatype outcome = Continue | Returned bool | Raised pyerror

definition logCallback :: "env \<Rightarrow> msg \<Rightarrow> state \<Rightarrow> state" where
  "logCallback e m s =
     s\<lparr>progress := progress s @ [m],
        cancelRequested := cancelRequested s \<or> clicks e (length (progress s))\<rparr>"

definition cleanup :: "env \<Rightarrow> state \<Rightarrow> state" where
  "cleanup e s = logCallback e Cleared s"

definition logError :: "string \<Rightarrow> state \<Rightarrow> state" where
  "logError text s = s\<lparr>errorLog := errorLog s @ [text]\<rparr>"

text \<open>\<^verbatim>\<open>vtk.vtkPolyData()\<close> allocates a fresh, empty object; \<^verbatim>\<open>DeepCopy\<close> overwrites
  the object at an address with a copy of a value.\<close>

definition newPolyData :: "state \<Rightarrow> nat \<times> state" where
  "newPolyData s =
     (nextAddr s,
      s\<lparr>store := (store s)(nextAddr s := \<lparr>points = [], cells = []\<rparr>),
         nextAddr := Suc (nextAddr s)\<rparr>)"

definition DeepCopy :: "nat \<Rightarrow> polydata \<Rightarrow> state \<Rightarrow> state" where
  "DeepCopy dst pd s = s\<lparr>store := (store s)(dst := pd)\<rparr>"

text \<open>The working mesh and the input surface, read through their variables.\<close>

definition working :: "state \<Rightarrow> polydata" where
  "working s = store s (shrinkModelPD s)"

definition inputSurface :: "state \<Rightarrow> polydata" where
  "inputSurface s = store s (inputPolyData s)"

section \<open>Committing a result (lines 355-398)\<close>

definition polydataToModel :: "env \<Rightarrow> outdata \<Rightarrow> bool \<Rightarrow> state \<Rightarrow> bool \<times> state" where
  "polydataToModel e polydata smooth s =
     (if cancelRequested s then (False, cleanup e s)
      else let s1 = logCallback e CreatingModel s;
               polydata' = (if smooth then smoothOutput e polydata else polydata)
           in (True, s1\<lparr>calls := calls s1 @ [AddModel polydata']\<rparr>))"

definition polydataToSegment :: "env \<Rightarrow> outdata \<Rightarrow> bool \<Rightarrow> state \<Rightarrow> bool \<times> state" where
  "polydataToSegment e polydata smooth s =
     (if cancelRequested s then (False, cleanup e s)
      else let s1 = logCallback e UpdatingSegmentation s;
               polydata' = (if smooth then smoothOutput e polydata else polydata)
           in (True, s1\<lparr>calls := calls s1 @
                 [SegmentDeepCopy polydata', Modified, RemoveClosedSurfaceRepresentation,
                  CreateClosedSurfaceRepresentation] @
                 (if hasDisplayNode e then [UpdateScene] else [])\<rparr>))"

text \<open>
  The dispatch that ends a stage (lines 565-575, 734-744, 776-786, 959-969): the value
  the two helpers return is not looked at.
\<close>

definition dispatchOutput :: "env \<Rightarrow> options \<Rightarrow> outdata \<Rightarrow> state \<Rightarrow> outcome \<times> state" where
  "dispatchOutput e opts polydata s =
     (if outputType opts = OUTPUT_SEGMENTATION
      then (Returned True, cleanup e (snd (polydataToSegment e polydata False s)))
      else if outputType opts = OUTPUT_MODEL
      then (Returned True, cleanup e (snd (polydataToModel e polydata False s)))
      else (Returned False, logError ''unknown outputType'' s))"

definition dispatch :: "string \<Rightarrow> env \<Rightarrow> options \<Rightarrow> state \<Rightarrow> outcome \<times> state" where
  "dispatch mode e opts s =
     (if filterMode opts = mode then dispatchOutput e opts (toOut (working s)) s
      else (Continue, s))"

text \<open>The dispatch after cap removal (lines 819-829), with the text of its error.\<close>

definition SEGMENTATION_NOT_POSSIBLE :: string where
  \<open>SEGMENTATION_NOT_POSSIBLE =
     ''outputType "SEGMENTATION" not possible for filterMode "NONMANIFOLD".''\<close>

definition dispatchNonmanifold :: "env \<Rightarrow> options \<Rightarrow> state \<Rightarrow> outcome \<times> state" where
  "dispatchNonmanifold e opts s =
     (if filterMode opts = MODE_NONMANIFOLD
      then (if outputType opts = OUTPUT_SEGMENTATION
            then (Returned True,
                  cleanup e (logError SEGMENTATION_NOT_POSSIBLE s))
            else if outputType opts = OUTPUT_MODEL
            then (Returned True, cleanup e (snd (polydataToModel e (toOut (working s)) False s)))
            else (Returned False, logError ''unknown outputType'' s))
      else (Continue, s))"

section \<open>The stages\<close>

text \<open>
  Preparation (lines 331 and 477-520): the flag is reset, the start is announced, the
  segmentation's conversion parameter is set and its closed surface regenerated, the
  segment's surface object is fetched (a reference, not a copy), and the working mesh is
  a fresh object holding a copy of the cleaned sphere.
\<close>

definition prepare :: "env \<Rightarrow> options \<Rightarrow> state \<Rightarrow> state" where
  "prepare e opts s =
     (let s1 = logCallback e Started (s\<lparr>cancelRequested := False\<rparr>);
          s2 = s1\<lparr>calls := calls s1 @
                 [SetConversionParameter (smoothingFactor opts),
                  RemoveClosedSurfaceRepresentation, CreateClosedSurfaceRepresentation,
                  Modified] @
                 (if hasDisplayNode e then [UpdateScene] else []) @ [Modified]\<rparr>;
          s3 = s2\<lparr>store := (store s2)(nextAddr s2 := closedSurface e (smoothingFactor opts)),
                  inputPolyData := nextAddr s2, nextAddr := Suc (nextAddr s2)\<rparr>;
          bounds = inputBounds e (inputSurface s3);
          dimensions = [bounds ! 1 - bounds ! 0, bounds ! 3 - bounds ! 2, bounds ! 5 - bounds ! 4];
          center = (bounds ! 0 + dimensions ! 0 / 2, bounds ! 2 + dimensions ! 1 / 2,
                    bounds ! 4 + dimensions ! 2 / 2);
          radius = max (dimensions ! 0) (max (dimensions ! 1) (dimensions ! 2));
          sphere = vtkCleanPolyData e (vtkSphereSource e radius (py_int (radius / 10)) center);
          (a, s4) = newPolyData s3
      in DeepCopy a sphere (s4\<lparr>shrinkModelPD := a\<rparr>))"

definition remeshPolydata :: "env \<Rightarrow> polydata \<Rightarrow> real list \<Rightarrow> pyerror + polydata" where
  "remeshPolydata e polydata sp =
     (case whiteImage (GetBounds e polydata) sp of
        Inl err \<Rightarrow> Inl err
      | Inr img \<Rightarrow> Inr (stencilCubes e polydata img))"

text \<open>
  The first shrinkwrap loop (lines 522-563). \<open>x\<close> is the loop variable, the third
  argument the number of iterations still to run.
\<close>

fun firstLoop :: "env \<Rightarrow> options \<Rightarrow> nat \<Rightarrow> nat \<Rightarrow> state \<Rightarrow> outcome \<times> state" where
  "firstLoop e opts x 0 s = (Continue, s)"
| "firstLoop e opts x (Suc k) s =
     (if cancelRequested s then (Returned False, cleanup e s)
      else
        let s1 = logCallback e
                   (Shrinkwrapping (int x + 1) (py_int (iterationsFirstShrinkwrap opts))) s;
            pd = working s1;
            s2 = DeepCopy (shrinkModelPD s1)
                   (pd\<lparr>points := shrinkwrapPoints (FindClosestPoint e (inputSurface s1))
                                     (offsetFirstShrinkwrap opts) (points pd)\<rparr>) s1
        in if int x = py_int (iterationsFirstShrinkwrap opts) - 1 then (Continue, s2)
           else if cancelRequested s2 then (Returned False, cleanup e s2)
           else
             let s3 = logCallback e
                        (Remeshing (int x + 1) (py_int (iterationsSecondShrinkwrap opts))) s2
             in case remeshPolydata e (working s3)
                       [spacingFirstRemesh opts, spacingFirstRemesh opts, spacingFirstRemesh opts] of
                  Inl err \<Rightarrow> (Raised err, s3)
                | Inr r \<Rightarrow> firstLoop e opts (Suc x) k (DeepCopy (shrinkModelPD s3) r s3))"

definition firstShrinkwrap :: "env \<Rightarrow> options \<Rightarrow> state \<Rightarrow> outcome \<times> state" where
  "firstShrinkwrap e opts s =
     firstLoop e opts 0 (nat (py_int (iterationsFirstShrinkwrap opts))) s"

text \<open>
  The raycast stage (lines 580-732). \<^verbatim>\<open>largeCellsPolyData\<close> is a fresh object: a copy
  of the working mesh from which every cell that is not large is deleted.
\<close>

definition raycast :: "env \<Rightarrow> options \<Rightarrow> state \<Rightarrow> outcome \<times> state" where
  "raycast e opts s =
     (if cancelRequested s then (Returned False, cleanup e s)
      else
        let s1 = logCallback e Raycasting s in
        case findLargeCells (working s1) (raycastSearchEdgeLength opts) of
          Inl err \<Rightarrow> (Raised err, s1)
        | Inr largeCellIds \<Rightarrow>
            let (largeCellsPolyData, s2) = newPolyData s1;
                s3 = DeepCopy largeCellsPolyData (working s2) s2;
                s4 = DeepCopy largeCellsPolyData
                       (RemoveDeletedCells
                          (filter (\<lambda>c. c \<notin> set largeCellIds)
                             [0..<length (cells (store s3 largeCellsPolyData))])
                          (store s3 largeCellsPolyData)) s3;
                s5 = DeepCopy (shrinkModelPD s4)
                       (vtkCleanPolyData e
                          (vtkAdaptiveSubdivisionFilter e (raycastOutputEdgeLength opts)
                             (working s4))) s4
            in if cancelRequested s5 then (Returned False, cleanup e s5)
               else if length largeCellIds > 0 \<and> raycastMaxLength opts > 0
               then
                 let largePointIds =
                       filter (\<lambda>p. \<bar>vtkImplicitPolyDataDistance e (store s5 largeCellsPolyData)
                                      (points (working s5) ! p)\<bar> < 1)
                         [0..<length (points (working s5))];
                     (pdn, normals) = pointNormals e (working s5);
                     s6 = DeepCopy (shrinkModelPD s5) pdn s5
                 in case raycastVertices (IntersectWithLine e (inputSurface s6)) normals
                           largePointIds (raycastMaxLength opts) (raycastMinLength opts)
                           (raycastMaxHitDistance opts) (working s6) of
                      Inl err \<Rightarrow> (Raised err, s6)
                    | Inr pd' \<Rightarrow> (Continue, DeepCopy (shrinkModelPD s6) pd' s6)
               else (Continue, s5))"

text \<open>The second shrinkwrap loop (lines 750-774) and the smoothing that follows it.\<close>

fun secondLoop :: "env \<Rightarrow> options \<Rightarrow> nat \<Rightarrow> nat \<Rightarrow> state \<Rightarrow> outcome \<times> state" where
  "secondLoop e opts x 0 s = (Continue, s)"
| "secondLoop e opts x (Suc k) s =
     (if cancelRequested s then (Returned False, cleanup e s)
      else
        let s1 = logCallback e
                   (Remeshing (int x + 1) (py_int (iterationsSecondShrinkwrap opts) + 1)) s
        in case remeshPolydata e (working s1)
                  [spacingSecondRemesh opts, spacingSecondRemesh opts, spacingSecondRemesh opts] of
             Inl err \<Rightarrow> (Raised err, s1)
           | Inr r \<Rightarrow>
               let s2 = DeepCopy (shrinkModelPD s1) r s1
               in if int x = py_int (iterationsSecondShrinkwrap opts) then (Continue, s2)
                  else if cancelRequested s2 then (Returned False, cleanup e s2)
                  else
                    let s3 = logCallback e
                               (Shrinkwrapping (int x + 1)
                                  (py_int (iterationsSecondShrinkwrap opts))) s2;
                        s4 = DeepCopy (shrinkModelPD s3)
                               (vtkSmoothPolyDataFilter e (working s3) (inputSurface s3)) s3
                    in secondLoop e opts (Suc x) k s4)"

definition secondShrinkwrap :: "env \<Rightarrow> options \<Rightarrow> state \<Rightarrow> outcome \<times> state" where
  "secondShrinkwrap e opts s =
     (case secondLoop e opts 0 (nat (py_int (iterationsSecondShrinkwrap opts) + 1)) s of
        (Continue, s') \<Rightarrow>
          (Continue, DeepCopy (shrinkModelPD s') (vtkWindowedSincPolyDataFilter e (working s')) s')
      | r \<Rightarrow> r)"

text \<open>Cap removal (lines 791-817); \<^verbatim>\<open>nonsolidPolyData\<close> is a fresh object.\<close>

definition removeCaps :: "env \<Rightarrow> options \<Rightarrow> state \<Rightarrow> outcome \<times> state" where
  "removeCaps e opts s =
     (if cancelRequested s then (Returned False, cleanup e s)
      else
        let s1 = logCallback e RemovingCaps s;
            (nonsolidPolyData, s2) = newPolyData s1;
            s3 = DeepCopy nonsolidPolyData (working s2) s2;
            s4 = DeepCopy nonsolidPolyData
                   (removeCapCells (vtkImplicitPolyDataDistance e (inputSurface s3))
                      (maxModelDistance opts) (store s3 nonsolidPolyData)) s3
        in (Continue, DeepCopy (shrinkModelPD s4) (store s4 nonsolidPolyData) s4))"

text \<open>Solidification and the last dispatch (lines 834-972).\<close>

definition solidify :: "env \<Rightarrow> options \<Rightarrow> state \<Rightarrow> outcome \<times> state" where
  "solidify e opts s =
     (if cancelRequested s then (Returned False, cleanup e s)
      else
        let s1 = logCallback e Solidifying s;
            (pdn, cn) = cellNormals e (vtkCleanPolyData e (working s1));
            s2 = DeepCopy (shrinkModelPD s1) pdn s1
        in case manifoldPD (IsInsertedPoint e) (solidificationThickness opts) (working s2) cn
                  (vtkFeatureEdges e pdn) of
             Inl err \<Rightarrow> (Raised err, s2)
           | Inr m \<Rightarrow>
               if filterMode opts = MODE_SOLIDIFIED
               then dispatchOutput e opts (vtkTriangleFilter e m) s2
               else (Returned False, logError ''unknown filterMode.'' s2))"

text \<open>The stages in their fixed order; the run stops at the first that does not fall through.\<close>

fun runStages :: "(state \<Rightarrow> outcome \<times> state) list \<Rightarrow> state \<Rightarrow> outcome \<times> state" where
  "runStages [] s = (Continue, s)"
| "runStages (f # fs) s =
     (case f s of (Continue, s') \<Rightarrow> runStages fs s' | r \<Rightarrow> r)"

definition pipeline :: "env \<Rightarrow> options \<Rightarrow> (state \<Rightarrow> outcome \<times> state) list" where
  "pipeline e opts =
     [firstShrinkwrap e opts, dispatch MODE_CONVEXHULL e opts,
      raycast e opts, dispatch MODE_RAYCASTS e opts,
      secondShrinkwrap e opts, dispatch MODE_DEEPHULL e opts,
      removeCaps e opts, dispatchNonmanifold e opts,
      solidify e opts]"

definition ApplySRSFilter :: "env \<Rightarrow> options \<Rightarrow> state \<Rightarrow> outcome \<times> state" where
  "ApplySRSFilter e opts s = runStages (pipeline e opts) (prepare e opts s)"

section \<open>Predicates on runs\<close>

text \<open>
  The state of the raycast stage at its second cancellation check (line 630), with the
  mesh subdivided and cleaned, and the state after the point normals are computed
  (line 659).
\<close>

definition subdivided :: "env \<Rightarrow> options \<Rightarrow> nat list \<Rightarrow> state \<Rightarrow> state" where
  "subdivided e opts largeCellIds s =
     (let s1 = logCallback e Raycasting s;
          (largeCellsPolyData, s2) = newPolyData s1;
          s3 = DeepCopy largeCellsPolyData (working s2) s2;
          s4 = DeepCopy largeCellsPolyData
                 (RemoveDeletedCells
                    (filter (\<lambda>c. c \<notin> set largeCellIds)
                       [0..<length (cells (store s3 largeCellsPolyData))])
                    (store s3 largeCellsPolyData)) s3
      in DeepCopy (shrinkModelPD s4)
           (vtkCleanPolyData e
              (vtkAdaptiveSubdivisionFilter e (raycastOutputEdgeLength opts) (working s4))) s4)"

definition projected :: "env \<Rightarrow> options \<Rightarrow> state \<Rightarrow> state" where
  "projected e opts s5 = DeepCopy (shrinkModelPD s5) (fst (pointNormals e (working s5))) s5"

text \<open>
  The invariant of a run between two stages, for a run whose progress log had \<open>n0\<close>
  entries when it started: no click arrived during a callback before the last one, the
  flag is set exactly if one arrived during the last one, no call has been made on the
  host's objects since the preparation (\<open>c0\<close>), and the input surface still is the object
  \<open>a0\<close> with the content \<open>pd0\<close>, an object other than the working mesh.
\<close>

definition noEarlierClick :: "env \<Rightarrow> nat \<Rightarrow> state \<Rightarrow> bool" where
  "noEarlierClick e n0 s =
     (n0 < length (progress s) \<and>
      (\<forall>k. n0 \<le> k \<longrightarrow> Suc k < length (progress s) \<longrightarrow> \<not> clicks e k) \<and>
      cancelRequested s = clicks e (length (progress s) - 1))"

definition midRun :: "env \<Rightarrow> nat \<Rightarrow> call list \<Rightarrow> nat \<Rightarrow> polydata \<Rightarrow> state \<Rightarrow> bool" where
  "midRun e n0 c0 a0 pd0 s =
     (noEarlierClick e n0 s \<and> calls s = c0 \<and> inputPolyData s = a0 \<and> store s a0 = pd0 \<and>
      a0 < nextAddr s \<and> shrinkModelPD s < nextAddr s \<and> shrinkModelPD s \<noteq> a0)"

text \<open>
  What holds when a run has ended with outcome \<open>oc\<close>. \<open>stopped\<close>: a click during a
  callback that was neither the last one nor the announcement of a commit ended the run
  at once, with a boolean result and nothing committed.
\<close>

definition stopped :: "env \<Rightarrow> nat \<Rightarrow> call list \<Rightarrow> outcome \<Rightarrow> state \<Rightarrow> bool" where
  "stopped e n0 c0 oc s' =
     (\<forall>k. n0 \<le> k \<longrightarrow> clicks e k \<longrightarrow> Suc k < length (progress s') \<longrightarrow>
          progress s' ! k \<noteq> CreatingModel \<longrightarrow> progress s' ! k \<noteq> UpdatingSegmentation \<longrightarrow>
          calls s' = c0 \<and> set (drop (Suc k) (progress s')) \<subseteq> {Cleared} \<and>
          (\<exists>b. oc = Returned b))"

definition finished ::
  "env \<Rightarrow> nat \<Rightarrow> call list \<Rightarrow> nat \<Rightarrow> polydata \<Rightarrow> options \<Rightarrow> outcome \<Rightarrow> state \<Rightarrow> bool" where
  "finished e n0 c0 a0 pd0 opts oc s' =
     (inputPolyData s' = a0 \<and> store s' a0 = pd0 \<and>
      (filterMode opts = MODE_NONMANIFOLD \<longrightarrow> outputType opts = OUTPUT_SEGMENTATION \<longrightarrow>
         calls s' = c0) \<and>
      stopped e n0 c0 oc s')"

definition afterStage ::
  "env \<Rightarrow> nat \<Rightarrow> call list \<Rightarrow> nat \<Rightarrow> polydata \<Rightarrow> options \<Rightarrow> outcome \<times> state \<Rightarrow> bool" where
  "afterStage e n0 c0 a0 pd0 opts r =
     (if fst r = Continue then midRun e n0 c0 a0 pd0 (snd r)
      else finished e n0 c0 a0 pd0 opts (fst r) (snd r))"

text \<open>
  A run in which nobody clicks Cancel, and what a stage of such a run does: it does not
  return, and when it falls through the flag is still clear, no error was logged and the
  progress log has only grown.
\<close>

definition noClicks :: "env \<Rightarrow> bool" where
  "noClicks e = (\<forall>k. \<not> clicks e k)"

definition quiet :: "state \<Rightarrow> outcome \<times> state \<Rightarrow> bool" where
  "quiet s r =
     ((\<forall>b. fst r \<noteq> Returned b) \<and>
      (fst r = Continue \<longrightarrow>
         \<not> cancelRequested (snd r) \<and> errorLog (snd r) = errorLog s \<and>
         set (progress s) \<subseteq> set (progress (snd r))))"

section \<open>A small world to run the filter in\<close>

text \<open>
  Filters that return their input, a closest-point query that answers the origin and a
  distance query that answers 0, on a mesh of one triangle; the user clicks Cancel during
  the callbacks selected by the argument.
\<close>

definition exampleMesh :: polydata where
  "exampleMesh = \<lparr>points = [(0, 0, 0), (1, 0, 0), (1, 1, 0)], cells = [(5, [0, 1, 2])]\<rparr>"

definition exampleEnv :: "(nat \<Rightarrow> bool) \<Rightarrow> env" where
  "exampleEnv cl =
     \<lparr>clicks = cl, hasDisplayNode = False,
      closedSurface = (\<lambda>sf. exampleMesh),
      inputBounds = (\<lambda>pd. [0, 1, 0, 1, 0, 1]),
      GetBounds = (\<lambda>pd. [0, 1, 0, 1, 0, 1]),
      vtkSphereSource = (\<lambda>radius resolution center. exampleMesh),
      vtkCleanPolyData = (\<lambda>pd. pd),
      FindClosestPoint = (\<lambda>pd p. (0, 0, 0)),
      stencilCubes = (\<lambda>pd img. pd),
      vtkAdaptiveSubdivisionFilter = (\<lambda>len pd. pd),
      vtkImplicitPolyDataDistance = (\<lambda>pd p. 0),
      pointNormals = (\<lambda>pd. (pd, map (\<lambda>p. (0, 0, 1)) (points pd))),
      IntersectWithLine = (\<lambda>pd a0 a1 tol. (0, 0, 0)),
      vtkSmoothPolyDataFilter = (\<lambda>pd src. pd),
      vtkWindowedSincPolyDataFilter = (\<lambda>pd. pd),
      smoothOutput = (\<lambda>pd. pd),
      cellNormals = (\<lambda>pd. (pd, map (\<lambda>c. (0, 0, 1)) (cells pd))),
      vtkFeatureEdges = (\<lambda>pd. \<lparr>points = [], cells = []\<rparr>),
      IsInsertedPoint = (\<lambda>pts x. None),
      vtkTriangleFilter = (\<lambda>pd. pd)\<rparr>"

definition exampleState :: state where
  "exampleState =
     \<lparr>cancelRequested = False, progress = [], errorLog = [], calls = [],
      store = (\<lambda>a. exampleMesh), nextAddr = 2, inputPolyData = 0, shrinkModelPD = 1\<rparr>"

definition exampleOptions :: "string \<Rightarrow> string \<Rightarrow> real \<Rightarrow> options" where
  "exampleOptions mode out n =
     defaultOptions\<lparr>filterMode := mode, outputType := out, offsetFirstShrinkwrap := 0,
                    iterationsFirstShrinkwrap := n, iterationsSecondShrinkwrap := 0\<rparr>"

section \<open>Properties\<close>

lemma vnorm_nonneg: "0 \<le> vnorm v"
  by (cases v) simp

lemma vnorm_vscale: "vnorm (vscale v k) = vnorm v * \<bar>k\<bar>"
proof (cases v)
  case (fields a b c)
  have "a * k * (a * k) + b * k * (b * k) + c * k * (c * k) = (a * a + b * b + c * c) * (k * k)"
    by (simp add: algebra_simps)
  then show ?thesis
    using fields by (simp add: real_sqrt_mult)
qed

lemma vnorm_vdivide: "vnorm (vdivide v k) = vnorm v / \<bar>k\<bar>"
proof (cases v)
  case (fields a b c)
  have "a / k * (a / k) + b / k * (b / k) + c / k * (c / k) = (a * a + b * b + c * c) / (k * k)"
    by (simp add: add_divide_distrib)
  then show ?thesis
    using fields by (simp add: real_sqrt_divide)
qed

lemma vnorm_vsub_vsub: "vnorm (vsub (vsub c w) c) = vnorm w"
  by (cases c; cases w) (simp add: algebra_simps)

lemma foldl_update_map:
  "k \<le> length pts \<Longrightarrow>
   foldl (\<lambda>ps i. ps[i := g (ps ! i)]) pts [0..<k] = map g (take k pts) @ drop k pts"
proof (induction k)
  case 0
  then show ?case by simp
next
  case (Suc k)
  then have k: "k < length pts" by simp
  have "(map g (take k pts) @ drop k pts)[k := g ((map g (take k pts) @ drop k pts) ! k)]
        = map g (take (Suc k) pts) @ drop (Suc k) pts"
    using k
    by (simp add: list_update_append nth_append take_Suc_conv_app_nth
        Cons_nth_drop_Suc [symmetric])
  with Suc k show ?case by simp
qed

lemma shrinkwrapPoints_map:
  "shrinkwrapPoints closest offset pts = map (\<lambda>v. newLocation offset v (closest v)) pts"
  unfolding shrinkwrapPoints_def
  using foldl_update_map [of "length pts" pts "\<lambda>v. newLocation offset v (closest v)"]
  by simp

text \<open>
  Claim C5. In a first-pass shrinkwrap iteration every vertex \<open>v\<close> of the working mesh,
  with closest input-surface point \<open>c\<close>, becomes \<open>c - normalize (c - v) * d\<close> when the
  offset \<open>d\<close> is positive and \<open>|c - v|\<close> exceeds 0.01, and exactly \<open>c\<close> otherwise. The
  division is only evaluated with a divisor above 0.01: the moved vertex ends at distance
  exactly \<open>d\<close> from \<open>c\<close>, which a division by a vanishing norm could not give.
\<close>

theorem shrinkwrap_vertex_update:
  "length (shrinkwrapPoints closest d pts) = length pts \<and>
   (\<forall>i < length pts.
      (let v = pts ! i; c = closest v; v' = shrinkwrapPoints closest d pts ! i
       in if d > 0 \<and> vnorm (vsub c v) > 1 / 100
          then v' = vsub c (vscale (vdivide (vsub c v) (vnorm (vsub c v))) d) \<and>
               vnorm (vdivide (vsub c v) (vnorm (vsub c v))) = 1 \<and>
               vnorm (vsub v' c) = d
          else v' = c))"
proof -
  have unit: "vnorm (vdivide w (vnorm w)) = 1" if "vnorm w > 1 / 100" for w
    using that by (simp add: vnorm_vdivide)
  have dist: "vnorm (vsub (vsub c (vscale (vdivide w (vnorm w)) d)) c) = d"
    if "vnorm w > 1 / 100" "d > 0" for w c
    using that by (simp add: vnorm_vsub_vsub vnorm_vscale unit)
  show ?thesis
    by (simp add: shrinkwrapPoints_map newLocation_def Let_def unit dist)
qed

theorem shrinkwrap_vertex_update_witness:
  "length (shrinkwrapPoints (\<lambda>v. (0, 0, 0)) 2 [(3, 0, 0), (0, 0, 0)]) = 2 \<and>
   shrinkwrapPoints (\<lambda>v. (0, 0, 0)) 2 [(3, 0, 0), (0, 0, 0)] ! 0 = (2, 0, 0) \<and>
   shrinkwrapPoints (\<lambda>v. (0, 0, 0)) 2 [(3, 0, 0), (0, 0, 0)] ! 1 = (0, 0, 0)"
proof -
  have n: "sqrt 9 = 3"
    using real_sqrt_abs [of 3] by simp
  show ?thesis
    using shrinkwrap_vertex_update [of "\<lambda>v. (0, 0, 0)" 2 "[(3, 0, 0), (0, 0, 0)]"] n
    by (simp add: Let_def All_less_Suc2 numeral_2_eq_2)
qed

subsection \<open>The remesher's volume\<close>

lemma remeshDim_pos:
  "sp ! i > 0 \<Longrightarrow>
   remeshDim bounds sp i =
     Inr (max 1 (\<lceil>(bounds ! (i * 2 + 1) - bounds ! (i * 2)) / sp ! i\<rceil> + 1))"
  by (simp add: remeshDim_def Let_def max_def)

text \<open>
  Claim C8, as the code has it. For positive spacings the remesher computes, per axis,
  \<open>dim = ceil (extent / spacing) + 1\<close>, clamped to 1 when below 1, and passes it to
  \<^verbatim>\<open>SetDimensions\<close>; it then sets the extent to \<open>[0, dim]\<close> per axis, so the volume
  it allocates has \<open>dim + 1\<close> samples along each axis.
\<close>

theorem remesh_volume_dimensions:
  assumes "sp ! 0 > 0" and "sp ! 1 > 0" and "sp ! 2 > 0"
  shows "\<exists>img. whiteImage bounds sp = Inr img \<and>
           remeshDims bounds sp =
             Inr (map (\<lambda>i. max 1 (\<lceil>(bounds ! (i * 2 + 1) - bounds ! (i * 2)) / sp ! i\<rceil> + 1))
                    [0, 1, 2]) \<and>
           GetDimensions img =
             map (\<lambda>i. max 1 (\<lceil>(bounds ! (i * 2 + 1) - bounds ! (i * 2)) / sp ! i\<rceil> + 1) + 1)
               [0, 1, 2]"
  using assms
  by (simp add: whiteImage_def remeshDims_def remeshDim_pos GetDimensions_def SetExtent_def
      SetDimensions_def)

theorem remesh_volume_dimensions_witness:
  "\<exists>img. whiteImage [0, 10, 0, 5, 0, 0] [2, 2, 2] = Inr img \<and>
         remeshDims [0, 10, 0, 5, 0, 0] [2, 2, 2] = Inr [6, 4, 1] \<and>
         GetDimensions img = [7, 5, 2]"
proof -
  have c: "\<lceil>5 / 2 :: real\<rceil> = 3" by linarith
  show ?thesis
    using remesh_volume_dimensions [of "[2, 2, 2]" "[0, 10, 0, 5, 0, 0]"] c
    by simp
qed

text \<open>
  The claim as stated fails: for an extent of 10 and spacing 1 on every axis,
  \<open>ceil (extent / spacing) + 1 = 11\<close>, but the allocated volume has 12 samples per axis.
\<close>

theorem remesh_volume_dimensions_counterexample:
  "whiteImage [0, 10, 0, 10, 0, 10] [1, 1, 1] =
     Inr \<lparr>spacing = [1, 1, 1], extent = [0, 11, 0, 11, 0, 11], origin = [0, 0, 0]\<rparr> \<and>
   GetDimensions \<lparr>spacing = [1, 1, 1], extent = [0, 11, 0, 11, 0, 11], origin = [0, 0, 0]\<rparr>
     = [12, 12, 12] \<and>
   \<lceil>(10 - 0) / 1 :: real\<rceil> + 1 = 11"
  by (simp add: whiteImage_def remeshDims_def remeshDim_def GetDimensions_def SetExtent_def
      SetDimensions_def vtkImageData_def)

subsection \<open>Large faces\<close>

lemma sqrt_9: "sqrt 9 = 3"
  using real_sqrt_abs [of 3] by simp

lemma sqrt_16: "sqrt 16 = 4"
  using real_sqrt_abs [of 4] by simp

lemma sqrt_25: "sqrt 25 = 5"
  using real_sqrt_abs [of 5] by simp

text \<open>
  Claim C4 at a failing input. The triangle \<open>(0,0,0), (3,0,0), (3,4,0)\<close> has edges of
  length 3 and 4 and a closing edge of length 5. With a search edge length of 4.5 its
  longest edge exceeds the threshold, yet the code, which never measures the closing edge,
  does not flag it.
\<close>

theorem large_face_closing_edge_missed:
  "findLargeCells \<lparr>points = [(0, 0, 0), (3, 0, 0), (3, 4, 0)], cells = [(5, [0, 1, 2])]\<rparr> (9 / 2)
     = Inr [] \<and>
   edgeLength [(0, 0, 0), (3, 0, 0), (3, 4, 0)] = [3, 4] \<and>
   allEdgeLengths [(0, 0, 0), (3, 0, 0), (3, 4, 0)] = [3, 4, 5] \<and>
   (5 :: real) > 9 / 2"
  by (simp add: findLargeCells_def cellPoints_def edgeLength_def allEdgeLengths_def
      upt_rec [of 0] upt_rec [of 1] upt_rec [of 2] sqrt_9 sqrt_16 sqrt_25)

subsection \<open>Cap removal\<close>

lemma farVertex_iff: "farVertex distance m ps \<longleftrightarrow> (\<exists>p \<in> set ps. \<bar>distance p\<bar> > m)"
  by (induction ps) auto

lemma map_nth_filter: "map (\<lambda>i. xs ! i) (filter (\<lambda>i. Q (xs ! i)) [0..<length xs]) = filter Q xs"
proof -
  have "filter Q xs = filter Q (map (\<lambda>i. xs ! i) [0..<length xs])"
    by (simp add: map_nth)
  also have "\<dots> = map (\<lambda>i. xs ! i) (filter (\<lambda>i. Q (xs ! i)) [0..<length xs])"
    by (simp add: filter_map comp_def)
  finally show ?thesis by simp
qed

lemma removeCapCells_cells:
  "cells (removeCapCells distance m pd) =
     filter (\<lambda>c. \<not> farVertex distance m (cellPoints pd c)) (cells pd)"
proof -
  have "filter (\<lambda>c. c \<notin> set (deletedCells distance m pd)) [0..<length (cells pd)]
        = filter (\<lambda>c. \<not> farVertex distance m (cellPoints pd (cells pd ! c))) [0..<length (cells pd)]"
    by (rule filter_cong) (auto simp: deletedCells_def)
  then show ?thesis
    by (simp add: removeCapCells_def RemoveDeletedCells_def
        map_nth_filter [of "cells pd" "\<lambda>c. \<not> farVertex distance m (cellPoints pd c)"])
qed

text \<open>
  Claim C7. Cap removal deletes exactly the faces with at least one vertex whose absolute
  signed distance to the input surface exceeds \<open>maxModelDistance\<close>: the faces that remain
  are, in their old order, those all of whose vertices lie within that distance, and each
  such face remains. The point array is untouched.
\<close>

theorem cap_removal_exact:
  "cells (removeCapCells distance maxDist pd) =
     filter (\<lambda>c. \<forall>p \<in> set (cellPoints pd c). \<bar>distance p\<bar> \<le> maxDist) (cells pd) \<and>
   points (removeCapCells distance maxDist pd) = points pd \<and>
   (\<forall>c \<in> set (cells pd).
      c \<in> set (cells (removeCapCells distance maxDist pd)) \<longleftrightarrow>
      \<not> (\<exists>p \<in> set (cellPoints pd c). \<bar>distance p\<bar> > maxDist))"
proof -
  have "(\<lambda>c. \<not> farVertex distance maxDist (cellPoints pd c))
        = (\<lambda>c. \<forall>p \<in> set (cellPoints pd c). \<bar>distance p\<bar> \<le> maxDist)"
    by (auto simp: farVertex_iff fun_eq_iff not_less)
  then have c: "cells (removeCapCells distance maxDist pd) =
     filter (\<lambda>c. \<forall>p \<in> set (cellPoints pd c). \<bar>distance p\<bar> \<le> maxDist) (cells pd)"
    by (simp add: removeCapCells_cells)
  have p: "points (removeCapCells distance maxDist pd) = points pd"
    by (simp add: removeCapCells_def RemoveDeletedCells_def)
  show ?thesis
    unfolding c using p by (auto simp: not_less)
qed

text \<open>
  A square of two triangles whose vertex 3 lies at distance 2 from the surface, with
  \<open>maxModelDistance = 1\<close>: the triangle touching vertex 3 goes, the other stays.
\<close>

theorem cap_removal_exact_witness:
  "cells (removeCapCells (\<lambda>(x, y, z). z) 1
     \<lparr>points = [(0, 0, 0), (1, 0, 0), (1, 1, 0), (0, 1, 2)],
      cells = [(5, [0, 1, 2]), (5, [0, 2, 3])]\<rparr>) = [(5, [0, 1, 2])] \<and>
   points (removeCapCells (\<lambda>(x, y, z). z) 1
     \<lparr>points = [(0, 0, 0), (1, 0, 0), (1, 1, 0), (0, 1, 2)],
      cells = [(5, [0, 1, 2]), (5, [0, 2, 3])]\<rparr>) = [(0, 0, 0), (1, 0, 0), (1, 1, 0), (0, 1, 2)]"
  using cap_removal_exact [of "\<lambda>(x, y, z). z" 1
     "\<lparr>points = [(0, 0, 0), (1, 0, 0), (1, 1, 0), (0, 1, 2)],
       cells = [(5, [0, 1, 2]), (5, [0, 2, 3])]\<rparr>"]
  by (simp add: cellPoints_def)

subsection \<open>Raycast relocation\<close>

lemma vnorm_neg_add: "vnorm (vadd (vscale loc (- 1)) p) = vnorm (vsub p loc)"
  by (cases loc; cases p) (simp add: algebra_simps)

lemma pointLoop_total:
  "set ps \<subseteq> dom d \<Longrightarrow>
   pointLoop d m i loc ps = Inr (list_ex (\<lambda>j. j \<noteq> i \<and> hitNear d m loc j) ps)"
proof (induction ps)
  case Nil
  then show ?case by simp
next
  case (Cons j ps)
  then obtain h where h: "d j = Some h" by auto
  from Cons have IH: "pointLoop d m i loc ps = Inr (list_ex (\<lambda>j. j \<noteq> i \<and> hitNear d m loc j) ps)"
    by simp
  show ?case
    by (auto simp: h IH hitNear_def vnorm_neg_add)
qed

lemma cellLoop_total:
  "\<forall>c \<in> set cs. set (snd (cells pd ! c)) \<subseteq> dom d \<Longrightarrow>
   cellLoop d m pd i loc cs =
     Inr (list_ex (\<lambda>c. list_ex (\<lambda>j. j \<noteq> i \<and> hitNear d m loc j) (snd (cells pd ! c))) cs)"
  by (induction cs) (simp_all add: pointLoop_total)

lemma GetPointCells_set:
  "set (GetPointCells pd i) = {c. c < length (cells pd) \<and> i \<in> set (snd (cells pd ! c))}"
  by (auto simp: GetPointCells_def)

lemma corroborated_iff:
  "list_ex (\<lambda>c. list_ex (\<lambda>j. j \<noteq> i \<and> hitNear d m loc j) (snd (cells pd ! c))) (GetPointCells pd i)
   = corroborated d m pd i loc"
proof
  assume "list_ex (\<lambda>c. list_ex (\<lambda>j. j \<noteq> i \<and> hitNear d m loc j) (snd (cells pd ! c))) (GetPointCells pd i)"
  then obtain c j where "c < length (cells pd)" "i \<in> set (snd (cells pd ! c))"
     "j \<in> set (snd (cells pd ! c))" "j \<noteq> i" "hitNear d m loc j"
    by (auto simp: list_ex_iff GetPointCells_set)
  moreover then have "cells pd ! c \<in> set (cells pd)" by simp
  ultimately show "corroborated d m pd i loc"
    unfolding corroborated_def adjacent_def by blast
next
  assume "corroborated d m pd i loc"
  then obtain j c where j: "j \<noteq> i" "hitNear d m loc j" and c: "c \<in> set (cells pd)"
     "i \<in> set (snd c)" "j \<in> set (snd c)"
    unfolding corroborated_def adjacent_def by blast
  from c(1) obtain k where k: "k < length (cells pd)" "cells pd ! k = c"
    by (auto simp: in_set_conv_nth)
  with c have "k \<in> set (GetPointCells pd i)" by (simp add: GetPointCells_set)
  moreover have "list_ex (\<lambda>j. j \<noteq> i \<and> hitNear d m loc j) (snd (cells pd ! k))"
    using j c k by (auto simp: list_ex_iff)
  ultimately show "list_ex (\<lambda>c. list_ex (\<lambda>j. j \<noteq> i \<and> hitNear d m loc j) (snd (cells pd ! c))) (GetPointCells pd i)"
    unfolding list_ex_iff by blast
qed

lemma relocatePoint_total:
  assumes "\<forall>c \<in> set (cells pd). set (snd c) \<subseteq> dom d" and "d i = Some h"
  shows "relocatePoint d minLength m pd i =
           Inr (if relocates d minLength m pd i then pd\<lparr>points := (points pd)[i := fst (snd h)]\<rparr> else pd)"
proof -
  have sub: "\<forall>c \<in> set (GetPointCells pd i). set (snd (cells pd ! c)) \<subseteq> dom d"
    using assms(1) by (auto simp: GetPointCells_set)
  show ?thesis
    using assms(2)
    by (simp add: relocatePoint_def relocates_def cellLoop_total [OF sub] corroborated_iff)
qed

lemma relocates_cells: "cells pd' = cells pd \<Longrightarrow> relocates d minLength m pd' i = relocates d minLength m pd i"
  by (simp add: relocates_def corroborated_def adjacent_def cong: option.case_cong)

lemma relocates_points_update [simp]:
  "relocates d minLength m (pd\<lparr>points := ps\<rparr>) i = relocates d minLength m pd i"
  by (rule relocates_cells) simp

lemma relocateLoop_total:
  assumes "\<forall>c \<in> set (cells pd). set (snd c) \<subseteq> dom d" and "set is \<subseteq> dom d" and "distinct is"
  shows "\<exists>pd'. relocateLoop d minLength m pd is = Inr pd' \<and> cells pd' = cells pd \<and>
           length (points pd') = length (points pd) \<and>
           (\<forall>i < length (points pd). points pd' ! i =
              (if i \<in> set is \<and> relocates d minLength m pd i then fst (snd (the (d i)))
               else points pd ! i))"
  using assms
proof (induction "is" arbitrary: pd)
  case Nil
  then show ?case by simp
next
  case (Cons i "is")
  then obtain h where h: "d i = Some h" by auto
  let ?pd1 = "if relocates d minLength m pd i then pd\<lparr>points := (points pd)[i := fst (snd h)]\<rparr> else pd"
  have step: "relocatePoint d minLength m pd i = Inr ?pd1"
    using relocatePoint_total [OF Cons.prems(1) h] .
  have c1: "cells ?pd1 = cells pd" by simp
  have l1: "length (points ?pd1) = length (points pd)" by simp
  have "\<forall>c \<in> set (cells ?pd1). set (snd c) \<subseteq> dom d" using Cons.prems(1) by simp
  moreover have "set is \<subseteq> dom d" "distinct is" using Cons.prems by auto
  ultimately obtain pd' where pd': "relocateLoop d minLength m ?pd1 is = Inr pd'"
      "cells pd' = cells ?pd1" "length (points pd') = length (points ?pd1)"
      "\<forall>k < length (points ?pd1). points pd' ! k =
              (if k \<in> set is \<and> relocates d minLength m ?pd1 k then fst (snd (the (d k)))
               else points ?pd1 ! k)"
    using Cons.IH [of ?pd1] by blast
  have ni: "i \<notin> set is" using Cons.prems(3) by simp
  have "\<forall>k < length (points pd). points pd' ! k =
              (if k \<in> set (i # is) \<and> relocates d minLength m pd k then fst (snd (the (d k)))
               else points pd ! k)"
  proof (intro allI impI)
    fix k assume k: "k < length (points pd)"
    then have "points pd' ! k = (if k \<in> set is \<and> relocates d minLength m ?pd1 k then fst (snd (the (d k)))
               else points ?pd1 ! k)"
      using pd'(4) l1 by simp
    moreover have "relocates d minLength m ?pd1 k = relocates d minLength m pd k"
      by (rule relocates_cells) simp
    ultimately have *: "points pd' ! k = (if k \<in> set is \<and> relocates d minLength m pd k then fst (snd (the (d k)))
               else points ?pd1 ! k)" by simp
    show "points pd' ! k =
              (if k \<in> set (i # is) \<and> relocates d minLength m pd k then fst (snd (the (d k)))
               else points pd ! k)"
    proof (cases "k = i")
      case True
      then show ?thesis using * ni k h by simp
    next
      case False
      then show ?thesis using * ni k h by simp
    qed
  qed
  then show ?case
    using step pd' by simp
qed

lemma dictOK_D:
  assumes "dictOK ray large d" and "d j = Some h"
  shows "fst h = (j \<in> set large \<and> fst (ray j)) \<and> (fst h \<longrightarrow> h = ray j)"
  using assms(1) [unfolded dictOK_def, THEN spec, THEN spec, of j h] assms(2)
  by (rule mp)

lemma dictOK_fst:
  assumes "dictOK ray large d" and "d j = Some h"
  shows "fst h = (j \<in> set large \<and> fst (ray j))"
  using dictOK_D [OF assms] by (rule conjunct1)

lemma dictOK_eq:
  assumes "dictOK ray large d" and "d j = Some h" and "fst h"
  shows "h = ray j"
  using dictOK_D [OF assms(1,2), THEN conjunct2] assms(3) by (rule mp)

lemma projectPoint_cases:
  "projectPoint intersect normals large maxLength pd d j =
     (if dummyEntry large d j then d(j \<mapsto> (False, (0, 0, 0), 0))
      else d(j \<mapsto> castRay intersect normals maxLength pd j))"
  unfolding projectPoint_def dummyEntry_def ..

lemma dummyEntry_no_hit:
  assumes ok: "dictOK ray large d" and dm: "dummyEntry large d j"
  shows "\<not> (j \<in> set large \<and> fst (ray j))"
proof (cases "j \<in> set large")
  case False
  then show ?thesis by simp
next
  case True
  show ?thesis
  proof (cases "d j")
    case None
    with dm True show ?thesis by (simp add: dummyEntry_def)
  next
    case (Some h0)
    with dm True have "\<not> fst h0" by (simp add: dummyEntry_def)
    with dictOK_fst [OF ok Some] show ?thesis by simp
  qed
qed

lemma projectPoint_ok:
  assumes ok: "dictOK (castRay intersect normals maxLength pd) large d"
  shows "dictOK (castRay intersect normals maxLength pd) large
           (projectPoint intersect normals large maxLength pd d j) \<and>
         dom (projectPoint intersect normals large maxLength pd d j) = insert j (dom d)"
proof
  let ?ray = "castRay intersect normals maxLength pd"
  let ?d' = "projectPoint intersect normals large maxLength pd d j"
  show "dom ?d' = insert j (dom d)"
    by (simp add: projectPoint_cases)
  have new: "fst h = (j \<in> set large \<and> fst (?ray j)) \<and> (fst h \<longrightarrow> h = ?ray j)"
    if h: "?d' j = Some h" for h
  proof (cases "dummyEntry large d j")
    case True
    then have hd: "h = (False, (0, 0, 0), 0)"
      using h by (simp add: projectPoint_cases)
    with dummyEntry_no_hit [OF ok True] show ?thesis by simp
  next
    case False
    then have "h = ?ray j"
      using h by (simp add: projectPoint_cases)
    moreover from False have "j \<in> set large"
      by (simp add: dummyEntry_def)
    ultimately show ?thesis by simp
  qed
  have old: "?d' k = d k" if "k \<noteq> j" for k
    using that by (simp add: projectPoint_cases)
  show "dictOK ?ray large ?d'"
    unfolding dictOK_def
  proof (intro allI impI)
    fix k h
    assume kh: "?d' k = Some h"
    show "fst h = (k \<in> set large \<and> fst (?ray k)) \<and> (fst h \<longrightarrow> h = ?ray k)"
    proof (cases "k = j")
      case True
      with kh have "?d' j = Some h" by simp
      from new [OF this] show ?thesis unfolding True .
    next
      case False
      with kh old have "d k = Some h" by simp
      then show ?thesis by (rule dictOK_D [OF ok])
    qed
  qed
qed

lemma projectPoints_ok:
  "dictOK (castRay intersect normals maxLength pd) large d \<Longrightarrow>
   dictOK (castRay intersect normals maxLength pd) large
     (foldl (projectPoint intersect normals large maxLength pd) d ids) \<and>
   dom (foldl (projectPoint intersect normals large maxLength pd) d ids) = set ids \<union> dom d"
proof (induction ids arbitrary: d)
  case Nil
  then show ?case by simp
next
  case (Cons j ids)
  from projectPoint_ok [OF Cons.prems, of j]
  have ok: "dictOK (castRay intersect normals maxLength pd) large
           (projectPoint intersect normals large maxLength pd d j)"
    and dm: "dom (projectPoint intersect normals large maxLength pd d j) = insert j (dom d)"
    by simp_all
  from Cons.IH [OF ok] dm show ?case by auto
qed

lemma projectCells_ok:
  "dictOK (castRay intersect normals maxLength pd) large d \<Longrightarrow>
   dictOK (castRay intersect normals maxLength pd) large
     (foldl (\<lambda>d c. if fst c = 5
                   then foldl (projectPoint intersect normals large maxLength pd) d (snd c)
                   else d) d cs) \<and>
   dom (foldl (\<lambda>d c. if fst c = 5
                   then foldl (projectPoint intersect normals large maxLength pd) d (snd c)
                   else d) d cs)
     = (\<Union>c \<in> set cs. if fst c = 5 then set (snd c) else {}) \<union> dom d"
proof (induction cs arbitrary: d)
  case Nil
  then show ?case by simp
next
  case (Cons c cs)
  let ?d1 = "if fst c = 5 then foldl (projectPoint intersect normals large maxLength pd) d (snd c) else d"
  have ok: "dictOK (castRay intersect normals maxLength pd) large ?d1"
    and dm: "dom ?d1 = (if fst c = 5 then set (snd c) else {}) \<union> dom d"
    using projectPoints_ok [OF Cons.prems, of "snd c"] Cons.prems by auto
  from Cons.IH [OF ok] dm show ?case by auto
qed

lemma vert_location_dict_ok:
  "dictOK (castRay intersect normals maxLength pd) large
     (vert_location_dict intersect normals large maxLength pd) \<and>
   dom (vert_location_dict intersect normals large maxLength pd)
     = (\<Union>c \<in> set (cells pd). if fst c = 5 then set (snd c) else {})"
proof -
  have "dictOK (castRay intersect normals maxLength pd) large Map.empty"
    by (simp add: dictOK_def)
  from projectCells_ok [OF this, of "cells pd"] show ?thesis
    by (simp add: vert_location_dict_def)
qed

lemma hitNear_dict:
  assumes ok: "dictOK (castRay intersect normals maxLength pd) large d" and j: "j \<in> dom d"
  shows "hitNear d m loc j =
           (rayHit intersect normals large maxLength pd j \<and>
            vnorm (vsub (hitPoint intersect normals maxLength pd j) loc) < m)"
proof -
  from j obtain h where h: "d j = Some h" by auto
  have a: "fst h = rayHit intersect normals large maxLength pd j"
    unfolding rayHit_def by (rule dictOK_fst [OF ok h])
  show ?thesis
  proof (cases "fst h")
    case True
    then have "h = castRay intersect normals maxLength pd j" by (rule dictOK_eq [OF ok h])
    with a h show ?thesis by (simp add: hitNear_def hitPoint_def)
  next
    case False
    with a h show ?thesis by (simp add: hitNear_def)
  qed
qed

lemma adjacent_in_cell: "adjacent pd i j \<Longrightarrow> \<exists>c \<in> set (cells pd). j \<in> set (snd c)"
  by (auto simp: adjacent_def)

lemma relocates_dict:
  assumes ok: "dictOK (castRay intersect normals maxLength pd) large d"
    and dm: "\<forall>c \<in> set (cells pd). set (snd c) \<subseteq> dom d" and i: "i \<in> dom d"
  shows "relocates d minLength m pd i =
           (rayHit intersect normals large maxLength pd i \<and>
            hitLength intersect normals maxLength pd i > minLength \<and>
            (\<exists>j. adjacent pd i j \<and> rayHit intersect normals large maxLength pd j \<and>
                 vnorm (vsub (hitPoint intersect normals maxLength pd j)
                          (hitPoint intersect normals maxLength pd i)) < m))"
proof -
  from i obtain h where h: "d i = Some h" by auto
  have a: "fst h = rayHit intersect normals large maxLength pd i"
    unfolding rayHit_def by (rule dictOK_fst [OF ok h])
  have nb: "hitNear d m loc j =
           (rayHit intersect normals large maxLength pd j \<and>
            vnorm (vsub (hitPoint intersect normals maxLength pd j) loc) < m)"
    if "adjacent pd i j" for j loc
  proof -
    from that dm have "j \<in> dom d" by (auto simp: adjacent_def)
    from hitNear_dict [OF ok this] show ?thesis .
  qed
  have c: "corroborated d m pd i loc =
      (\<exists>j. adjacent pd i j \<and> rayHit intersect normals large maxLength pd j \<and>
            vnorm (vsub (hitPoint intersect normals maxLength pd j) loc) < m)" for loc
    unfolding corroborated_def by (simp add: nb cong: conj_cong)
  show ?thesis
  proof (cases "fst h")
    case True
    then have "h = castRay intersect normals maxLength pd i" by (rule dictOK_eq [OF ok h])
    with a h True show ?thesis
      by (simp add: relocates_def c hitPoint_def hitLength_def)
  next
    case False
    with a h show ?thesis by (simp add: relocates_def)
  qed
qed

lemma moved_point_dict:
  assumes ok: "dictOK (castRay intersect normals maxLength pd) large d"
    and r: "relocates d minLength m pd i"
  shows "fst (snd (the (d i))) = hitPoint intersect normals maxLength pd i"
proof -
  from r obtain h where h: "d i = Some h" and t: "fst h"
    by (auto simp: relocates_def split: option.splits)
  from t have "h = castRay intersect normals maxLength pd i" by (rule dictOK_eq [OF ok h])
  with h show ?thesis by (simp add: hitPoint_def)
qed

text \<open>
  Claim C3, as the code has it. On a mesh of triangles in which every point is used, the
  raycast moves a vertex to its hit point exactly when the vertex is a candidate whose
  ray hit farther than \<open>minLength\<close> and some adjacent vertex is a candidate whose ray
  hit at a point closer than \<open>maxHitDistance\<close> to this hit point. The neighbour's hit
  only has to exist: it need not pass the \<open>minLength\<close> test nor be corroborated
  itself. Every other vertex keeps its position, and no cell changes.
\<close>

theorem raycast_acceptance_rule:
  assumes tri: "\<forall>c \<in> set (cells pd). fst c = 5"
    and used: "\<forall>i < length (points pd). \<exists>c \<in> set (cells pd). i \<in> set (snd c)"
  shows "\<exists>pd'. raycastVertices intersect normals largePointIds maxLength minLength maxHitDistance pd
                 = Inr pd' \<and>
           cells pd' = cells pd \<and> length (points pd') = length (points pd) \<and>
           (\<forall>i < length (points pd).
              points pd' ! i =
                (if rayHit intersect normals largePointIds maxLength pd i \<and>
                    hitLength intersect normals maxLength pd i > minLength \<and>
                    (\<exists>j. adjacent pd i j \<and>
                         rayHit intersect normals largePointIds maxLength pd j \<and>
                         vnorm (vsub (hitPoint intersect normals maxLength pd j)
                                  (hitPoint intersect normals maxLength pd i)) < maxHitDistance)
                 then hitPoint intersect normals maxLength pd i
                 else points pd ! i))"
proof -
  let ?d = "vert_location_dict intersect normals largePointIds maxLength pd"
  from vert_location_dict_ok [of intersect normals maxLength pd largePointIds]
  have ok: "dictOK (castRay intersect normals maxLength pd) largePointIds ?d"
    and dom: "dom ?d = (\<Union>c \<in> set (cells pd). if fst c = 5 then set (snd c) else {})"
    by simp_all
  have cells_dom: "\<forall>c \<in> set (cells pd). set (snd c) \<subseteq> dom ?d"
    using tri unfolding dom by auto
  have pts_dom: "set [0..<length (points pd)] \<subseteq> dom ?d"
  proof
    fix i assume "i \<in> set [0..<length (points pd)]"
    then have "i < length (points pd)" by simp
    with used obtain c where "c \<in> set (cells pd)" "i \<in> set (snd c)" by blast
    with cells_dom show "i \<in> dom ?d" by blast
  qed
  from relocateLoop_total [OF cells_dom pts_dom, of minLength maxHitDistance]
  obtain pd' where pd': "relocateLoop ?d minLength maxHitDistance pd [0..<length (points pd)] = Inr pd'"
    "cells pd' = cells pd" "length (points pd') = length (points pd)"
    "\<forall>i < length (points pd). points pd' ! i =
        (if i \<in> set [0..<length (points pd)] \<and> relocates ?d minLength maxHitDistance pd i
         then fst (snd (the (?d i))) else points pd ! i)"
    by auto
  have "points pd' ! i =
                (if rayHit intersect normals largePointIds maxLength pd i \<and>
                    hitLength intersect normals maxLength pd i > minLength \<and>
                    (\<exists>j. adjacent pd i j \<and>
                         rayHit intersect normals largePointIds maxLength pd j \<and>
                         vnorm (vsub (hitPoint intersect normals maxLength pd j)
                                  (hitPoint intersect normals maxLength pd i)) < maxHitDistance)
                 then hitPoint intersect normals maxLength pd i
                 else points pd ! i)"
    if i: "i < length (points pd)" for i
  proof -
    let ?C = "rayHit intersect normals largePointIds maxLength pd i \<and>
                    hitLength intersect normals maxLength pd i > minLength \<and>
                    (\<exists>j. adjacent pd i j \<and>
                         rayHit intersect normals largePointIds maxLength pd j \<and>
                         vnorm (vsub (hitPoint intersect normals maxLength pd j)
                                  (hitPoint intersect normals maxLength pd i)) < maxHitDistance)"
    from i pts_dom have idom: "i \<in> dom ?d" by auto
    have rel: "relocates ?d minLength maxHitDistance pd i = ?C"
      by (rule relocates_dict [OF ok cells_dom idom])
    show ?thesis
    proof (cases "relocates ?d minLength maxHitDistance pd i")
      case True
      then have C: ?C unfolding rel .
      from pd'(4) i True have "points pd' ! i = fst (snd (the (?d i)))" by simp
      also have "\<dots> = hitPoint intersect normals maxLength pd i"
        by (rule moved_point_dict [OF ok True])
      finally show ?thesis unfolding if_P [OF C] .
    next
      case False
      then have C: "\<not> ?C" unfolding rel .
      from pd'(4) i False have "points pd' ! i = points pd ! i" by simp
      then show ?thesis unfolding if_not_P [OF C] .
    qed
  qed
  with pd'(1-3) show ?thesis
    by (simp add: raycastVertices_def raycastRelocate_def)
qed

lemma vnorm_z: "vnorm (0, 0, z) = \<bar>z\<bar>"
  by simp

text \<open>
  One triangle, its vertices 0 and 1 candidates, every ray ending at \<open>(0, 0, -5)\<close>;
  \<open>minLength = 1\<close>, \<open>maxHitDistance = 2\<close>. Vertex 2 is used by the triangle, so
  the hypotheses hold; it is no candidate and stays where it is.
\<close>

theorem raycast_acceptance_rule_witness:
  "\<exists>pd'. raycastVertices (\<lambda>a0 a1 tol. (0, 0, - 5)) [(0, 0, 1), (0, 0, 1), (0, 0, 1)] [0, 1] 100 1 2
            \<lparr>points = [(0, 0, 0), (0, 0, - 9 / 2), (0, 1, 0)], cells = [(5, [0, 1, 2])]\<rparr> = Inr pd' \<and>
         cells pd' = [(5, [0, 1, 2])] \<and> length (points pd') = 3 \<and> points pd' ! 2 = (0, 1, 0)"
proof -
  let ?pd = "\<lparr>points = [(0, 0, 0), (0, 0, - 9 / 2), (0, 1, 0)], cells = [(5, [0, 1, 2])]\<rparr>"
  have tri: "\<forall>c \<in> set (cells ?pd). fst c = 5" by simp
  have used: "\<forall>i < length (points ?pd). \<exists>c \<in> set (cells ?pd). i \<in> set (snd c)"
    by (auto simp: less_Suc_eq)
  have two: "\<not> rayHit (\<lambda>a0 a1 tol. (0, 0, - 5)) [(0, 0, 1), (0, 0, 1), (0, 0, 1)] [0, 1] 100 ?pd 2"
    by (simp add: rayHit_def)
  from raycast_acceptance_rule [OF tri used,
      of "\<lambda>a0 a1 tol. (0, 0, - 5)" "[(0, 0, 1), (0, 0, 1), (0, 0, 1)]" "[0, 1]" 100 1 2]
  obtain pd' where r: "raycastVertices (\<lambda>a0 a1 tol. (0, 0, - 5)) [(0, 0, 1), (0, 0, 1), (0, 0, 1)]
        [0, 1] 100 1 2 ?pd = Inr pd'"
    and c: "cells pd' = cells ?pd" and l: "length (points pd') = length (points ?pd)"
    and p: "\<forall>i < length (points ?pd). points pd' ! i =
       (if rayHit (\<lambda>a0 a1 tol. (0, 0, - 5)) [(0, 0, 1), (0, 0, 1), (0, 0, 1)] [0, 1] 100 ?pd i \<and>
           hitLength (\<lambda>a0 a1 tol. (0, 0, - 5)) [(0, 0, 1), (0, 0, 1), (0, 0, 1)] 100 ?pd i > 1 \<and>
           (\<exists>j. adjacent ?pd i j \<and>
                rayHit (\<lambda>a0 a1 tol. (0, 0, - 5)) [(0, 0, 1), (0, 0, 1), (0, 0, 1)] [0, 1] 100 ?pd j \<and>
                vnorm (vsub (hitPoint (\<lambda>a0 a1 tol. (0, 0, - 5)) [(0, 0, 1), (0, 0, 1), (0, 0, 1)] 100 ?pd j)
                         (hitPoint (\<lambda>a0 a1 tol. (0, 0, - 5)) [(0, 0, 1), (0, 0, 1), (0, 0, 1)] 100 ?pd i)) < 2)
        then hitPoint (\<lambda>a0 a1 tol. (0, 0, - 5)) [(0, 0, 1), (0, 0, 1), (0, 0, 1)] 100 ?pd i
        else points ?pd ! i)"
    by blast
  from p have "points pd' ! 2 =
       (if rayHit (\<lambda>a0 a1 tol. (0, 0, - 5)) [(0, 0, 1), (0, 0, 1), (0, 0, 1)] [0, 1] 100 ?pd 2 \<and>
           hitLength (\<lambda>a0 a1 tol. (0, 0, - 5)) [(0, 0, 1), (0, 0, 1), (0, 0, 1)] 100 ?pd 2 > 1 \<and>
           (\<exists>j. adjacent ?pd 2 j \<and>
                rayHit (\<lambda>a0 a1 tol. (0, 0, - 5)) [(0, 0, 1), (0, 0, 1), (0, 0, 1)] [0, 1] 100 ?pd j \<and>
                vnorm (vsub (hitPoint (\<lambda>a0 a1 tol. (0, 0, - 5)) [(0, 0, 1), (0, 0, 1), (0, 0, 1)] 100 ?pd j)
                         (hitPoint (\<lambda>a0 a1 tol. (0, 0, - 5)) [(0, 0, 1), (0, 0, 1), (0, 0, 1)] 100 ?pd 2)) < 2)
        then hitPoint (\<lambda>a0 a1 tol. (0, 0, - 5)) [(0, 0, 1), (0, 0, 1), (0, 0, 1)] 100 ?pd 2
        else points ?pd ! 2)"
    by simp
  with two have "points pd' ! 2 = points ?pd ! 2" by simp
  with r c l show ?thesis by simp
qed

text \<open>
  The claim as stated fails on the same input. Vertex 0 has a valid hit (length 5) and is
  relocated to \<open>(0, 0, -5)\<close>, although neither of its neighbours has a valid hit, let
  alone an accepted one: vertex 1's hit has length 1/2, below \<open>minLength\<close>, and vertex 1
  stays in place; vertex 2 has no hit.
\<close>

theorem raycast_acceptance_rule_counterexample:
  "raycastVertices (\<lambda>a0 a1 tol. (0, 0, - 5)) [(0, 0, 1), (0, 0, 1), (0, 0, 1)] [0, 1] 100 1 2
     \<lparr>points = [(0, 0, 0), (0, 0, - 9 / 2), (0, 1, 0)], cells = [(5, [0, 1, 2])]\<rparr>
   = Inr \<lparr>points = [(0, 0, - 5), (0, 0, - 9 / 2), (0, 1, 0)], cells = [(5, [0, 1, 2])]\<rparr> \<and>
   \<not> validHit (vert_location_dict (\<lambda>a0 a1 tol. (0, 0, - 5)) [(0, 0, 1), (0, 0, 1), (0, 0, 1)] [0, 1] 100
        \<lparr>points = [(0, 0, 0), (0, 0, - 9 / 2), (0, 1, 0)], cells = [(5, [0, 1, 2])]\<rparr>) 1 1 \<and>
   \<not> validHit (vert_location_dict (\<lambda>a0 a1 tol. (0, 0, - 5)) [(0, 0, 1), (0, 0, 1), (0, 0, 1)] [0, 1] 100
        \<lparr>points = [(0, 0, 0), (0, 0, - 9 / 2), (0, 1, 0)], cells = [(5, [0, 1, 2])]\<rparr>) 1 2"
  by (simp add: raycastVertices_def raycastRelocate_def vert_location_dict_def projectPoint_def
      castRay_def relocatePoint_def GetPointCells_def validHit_def
      upt_rec [of 0] upt_rec [of 1] upt_rec [of 2])

subsection \<open>Solidification\<close>

text \<open>
  Claim C6 at a failing input. Two coincident triangles with opposite orientation have
  cell normals \<open>(0, 0, 1)\<close> and \<open>(0, 0, -1)\<close>; at each of their vertices the negated
  normals sum to the zero vector. The run does not raise, but the unguarded division
  gives every inner vertex non-finite coordinates, which enter the solid's point array.
\<close>

theorem solidify_zero_normal_sum_nan:
  "foldl vadd (0, 0, 0)
     (map (\<lambda>cid. vscale ([(0, 0, 1), (0, 0, - 1)] ! cid) (- 1))
        (GetPointCells \<lparr>points = [(0, 0, 0), (1, 0, 0), (0, 1, 0)],
                         cells = [(5, [0, 1, 2]), (5, [0, 2, 1])]\<rparr> 0)) = (0, 0, 0) \<and>
   vertex_neu \<lparr>points = [(0, 0, 0), (1, 0, 0), (0, 1, 0)], cells = [(5, [0, 1, 2]), (5, [0, 2, 1])]\<rparr>
     [(0, 0, 1), (0, 0, - 1)] (3 / 2) 0 = Inr None \<and>
   manifoldPD (\<lambda>pts x. None) (3 / 2)
     \<lparr>points = [(0, 0, 0), (1, 0, 0), (0, 1, 0)], cells = [(5, [0, 1, 2]), (5, [0, 2, 1])]\<rparr>
     [(0, 0, 1), (0, 0, - 1)] \<lparr>points = [], cells = []\<rparr>
   = Inr \<lparr>opoints = [Some (0, 0, 0), Some (1, 0, 0), Some (0, 1, 0), None, None, None],
          ocells = [(5, [0, 1, 2]), (5, [0, 2, 1]), (5, [5, 4, 3]), (5, [4, 5, 3])]\<rparr>"
  by (simp add: manifoldPD_def vertex_neu_def GetPointCells_def np_divide_def GetPolys_def
      addingPolys_def polyCell_def edgeQuads_def
      upt_rec [of 0] upt_rec [of 1] upt_rec [of 2])

subsection \<open>The run\<close>

lemma logCallback_simps [simp]:
  "progress (logCallback e m s) = progress s @ [m]"
  "cancelRequested (logCallback e m s) = (cancelRequested s \<or> clicks e (length (progress s)))"
  "errorLog (logCallback e m s) = errorLog s"
  "calls (logCallback e m s) = calls s"
  "store (logCallback e m s) = store s"
  "nextAddr (logCallback e m s) = nextAddr s"
  "inputPolyData (logCallback e m s) = inputPolyData s"
  "shrinkModelPD (logCallback e m s) = shrinkModelPD s"
  by (simp_all add: logCallback_def)

lemma cleanup_simps [simp]:
  "progress (cleanup e s) = progress s @ [Cleared]"
  "cancelRequested (cleanup e s) = (cancelRequested s \<or> clicks e (length (progress s)))"
  "errorLog (cleanup e s) = errorLog s"
  "calls (cleanup e s) = calls s"
  "store (cleanup e s) = store s"
  "nextAddr (cleanup e s) = nextAddr s"
  "inputPolyData (cleanup e s) = inputPolyData s"
  "shrinkModelPD (cleanup e s) = shrinkModelPD s"
  by (simp_all add: cleanup_def)

lemma logError_simps [simp]:
  "progress (logError t s) = progress s"
  "cancelRequested (logError t s) = cancelRequested s"
  "errorLog (logError t s) = errorLog s @ [t]"
  "calls (logError t s) = calls s"
  "store (logError t s) = store s"
  "nextAddr (logError t s) = nextAddr s"
  "inputPolyData (logError t s) = inputPolyData s"
  "shrinkModelPD (logError t s) = shrinkModelPD s"
  by (simp_all add: logError_def)

lemma DeepCopy_simps [simp]:
  "progress (DeepCopy a pd s) = progress s"
  "cancelRequested (DeepCopy a pd s) = cancelRequested s"
  "errorLog (DeepCopy a pd s) = errorLog s"
  "calls (DeepCopy a pd s) = calls s"
  "store (DeepCopy a pd s) = (store s)(a := pd)"
  "nextAddr (DeepCopy a pd s) = nextAddr s"
  "inputPolyData (DeepCopy a pd s) = inputPolyData s"
  "shrinkModelPD (DeepCopy a pd s) = shrinkModelPD s"
  by (simp_all add: DeepCopy_def)

lemma newPolyData_simps [simp]:
  "fst (newPolyData s) = nextAddr s"
  "progress (snd (newPolyData s)) = progress s"
  "cancelRequested (snd (newPolyData s)) = cancelRequested s"
  "errorLog (snd (newPolyData s)) = errorLog s"
  "calls (snd (newPolyData s)) = calls s"
  "store (snd (newPolyData s)) = (store s)(nextAddr s := \<lparr>points = [], cells = []\<rparr>)"
  "nextAddr (snd (newPolyData s)) = Suc (nextAddr s)"
  "inputPolyData (snd (newPolyData s)) = inputPolyData s"
  "shrinkModelPD (snd (newPolyData s)) = shrinkModelPD s"
  by (simp_all add: newPolyData_def)

lemma noEarlierClick_log:
  "noEarlierClick e n0 s \<Longrightarrow> \<not> cancelRequested s \<Longrightarrow> noEarlierClick e n0 (logCallback e m s)"
proof -
  assume a: "noEarlierClick e n0 s" and c: "\<not> cancelRequested s"
  have "\<not> clicks e k" if "n0 \<le> k" "Suc k < Suc (length (progress s))" for k
  proof (cases "Suc k < length (progress s)")
    case True
    with a that show ?thesis by (simp add: noEarlierClick_def)
  next
    case False
    with that have "k = length (progress s) - 1" by simp
    with a c show ?thesis by (simp add: noEarlierClick_def)
  qed
  with a c show ?thesis
    by (simp add: noEarlierClick_def)
qed

lemma noEarlierClick_cong:
  "progress s' = progress s \<Longrightarrow> cancelRequested s' = cancelRequested s \<Longrightarrow>
   noEarlierClick e n0 s' = noEarlierClick e n0 s"
  by (simp add: noEarlierClick_def)

lemma midRun_log:
  "midRun e n0 c0 a0 pd0 s \<Longrightarrow> \<not> cancelRequested s \<Longrightarrow> midRun e n0 c0 a0 pd0 (logCallback e m s)"
  by (simp add: midRun_def noEarlierClick_log)

lemma midRun_DeepCopy:
  "midRun e n0 c0 a0 pd0 s \<Longrightarrow> a \<noteq> a0 \<Longrightarrow> midRun e n0 c0 a0 pd0 (DeepCopy a pd s)"
  by (simp add: midRun_def noEarlierClick_cong [of "DeepCopy a pd s" s])

lemma midRun_working:
  "midRun e n0 c0 a0 pd0 s \<Longrightarrow> midRun e n0 c0 a0 pd0 (DeepCopy (shrinkModelPD s) pd s)"
  by (rule midRun_DeepCopy) (simp_all add: midRun_def)

lemma midRun_new:
  "midRun e n0 c0 a0 pd0 s \<Longrightarrow> midRun e n0 c0 a0 pd0 (snd (newPolyData s))"
  by (auto simp: midRun_def noEarlierClick_cong [of "snd (newPolyData s)" s])

lemma midRun_new_addr:
  "midRun e n0 c0 a0 pd0 s \<Longrightarrow> fst (newPolyData s) \<noteq> a0"
  by (auto simp: midRun_def)

lemma midRun_input: "midRun e n0 c0 a0 pd0 s \<Longrightarrow> inputSurface s = pd0"
  by (simp add: midRun_def inputSurface_def)

lemma click_is_last:
  assumes "noEarlierClick e n0 s" and "n0 \<le> k" and "clicks e k"
  shows "length (progress s) \<le> Suc k"
  using assms unfolding noEarlierClick_def by (meson not_less)

lemma click_not_last:
  assumes "noEarlierClick e n0 s" and "\<not> cancelRequested s" and "n0 \<le> k" and "clicks e k"
  shows "length (progress s) \<le> k"
proof (rule ccontr)
  assume "\<not> length (progress s) \<le> k"
  with click_is_last [OF assms(1,3,4)] have "k = length (progress s) - 1" by simp
  with assms(1,2,4) show False by (simp add: noEarlierClick_def)
qed

lemma stopped_same:
  assumes "noEarlierClick e n0 s" and "progress s' = progress s"
  shows "stopped e n0 c0 oc s'"
  unfolding stopped_def
proof (intro allI impI)
  fix k assume "n0 \<le> k" "clicks e k" "Suc k < length (progress s')"
  with click_is_last [OF assms(1)] assms(2) have False by fastforce
  then show "calls s' = c0 \<and> set (drop (Suc k) (progress s')) \<subseteq> {Cleared} \<and>
          (\<exists>b. oc = Returned b)" ..
qed

lemma stopped_append:
  assumes "noEarlierClick e n0 s" and "calls s' = c0" and "progress s' = progress s @ xs"
    and "set xs \<subseteq> {Cleared}"
  shows "stopped e n0 c0 (Returned b) s'"
  unfolding stopped_def
proof (intro allI impI)
  fix k assume "n0 \<le> k" "clicks e k"
  then have "length (progress s) \<le> Suc k" by (rule click_is_last [OF assms(1)])
  then have "drop (Suc k) (progress s') = drop (Suc k - length (progress s)) xs"
    by (simp add: assms(3))
  then have "set (drop (Suc k) (progress s')) \<subseteq> set xs"
    by (simp add: set_drop_subset)
  with assms(2,4) show "calls s' = c0 \<and> set (drop (Suc k) (progress s')) \<subseteq> {Cleared} \<and>
          (\<exists>b'. Returned b = Returned b')" by blast
qed

lemma stopped_commit:
  assumes "noEarlierClick e n0 s" and "\<not> cancelRequested s"
    and "progress s' = progress s @ [m, Cleared]"
    and "m = CreatingModel \<or> m = UpdatingSegmentation"
  shows "stopped e n0 c0 oc s'"
  unfolding stopped_def
proof (intro allI impI)
  fix k assume k: "n0 \<le> k" "clicks e k" "Suc k < length (progress s')"
    "progress s' ! k \<noteq> CreatingModel" "progress s' ! k \<noteq> UpdatingSegmentation"
  from click_not_last [OF assms(1,2) k(1,2)] k(3) assms(3)
  have "k = length (progress s)" by simp
  with assms(3) have "progress s' ! k = m" by (simp add: nth_append)
  with k(4,5) assms(4) have False by simp
  then show "calls s' = c0 \<and> set (drop (Suc k) (progress s')) \<subseteq> {Cleared} \<and>
          (\<exists>b. oc = Returned b)" ..
qed

lemma finished_Inv: "midRun e n0 c0 a0 pd0 s \<Longrightarrow> finished e n0 c0 a0 pd0 opts oc s"
  by (simp add: finished_def midRun_def stopped_same [of e n0 s s])

lemma finished_logError: "midRun e n0 c0 a0 pd0 s \<Longrightarrow> finished e n0 c0 a0 pd0 opts oc (logError t s)"
  by (simp add: finished_def midRun_def stopped_same [of e n0 s "logError t s"])

lemma finished_cleanup:
  "midRun e n0 c0 a0 pd0 s \<Longrightarrow> finished e n0 c0 a0 pd0 opts (Returned b) (cleanup e s)"
  by (simp add: finished_def midRun_def stopped_append [of e n0 s "cleanup e s" c0 "[Cleared]"])

lemma finished_cleanup_logError:
  "midRun e n0 c0 a0 pd0 s \<Longrightarrow> finished e n0 c0 a0 pd0 opts (Returned b) (cleanup e (logError t s))"
  by (simp add: finished_def midRun_def
      stopped_append [of e n0 s "cleanup e (logError t s)" c0 "[Cleared]"])

lemma finished_cleanup_cleanup:
  "midRun e n0 c0 a0 pd0 s \<Longrightarrow> finished e n0 c0 a0 pd0 opts (Returned b) (cleanup e (cleanup e s))"
  by (simp add: finished_def midRun_def
      stopped_append [of e n0 s "cleanup e (cleanup e s)" c0 "[Cleared, Cleared]"])

lemma finished_commit:
  assumes "midRun e n0 c0 a0 pd0 s" and "\<not> cancelRequested s"
    and "m = CreatingModel \<or> m = UpdatingSegmentation"
    and "filterMode opts = MODE_NONMANIFOLD \<longrightarrow> outputType opts \<noteq> OUTPUT_SEGMENTATION"
  shows "finished e n0 c0 a0 pd0 opts oc (cleanup e ((logCallback e m s)\<lparr>calls := cs\<rparr>))"
proof -
  have "stopped e n0 c0 oc (cleanup e ((logCallback e m s)\<lparr>calls := cs\<rparr>))"
    by (rule stopped_commit [of e n0 s _ m]) (use assms in \<open>simp_all add: midRun_def\<close>)
  with assms(1,4) show ?thesis
    by (simp add: finished_def midRun_def)
qed

lemma polydataToModel_finished:
  assumes "midRun e n0 c0 a0 pd0 s"
    and "filterMode opts = MODE_NONMANIFOLD \<longrightarrow> outputType opts \<noteq> OUTPUT_SEGMENTATION"
  shows "finished e n0 c0 a0 pd0 opts (Returned b) (cleanup e (snd (polydataToModel e out sm s)))"
proof (cases "cancelRequested s")
  case True
  with finished_cleanup_cleanup [OF assms(1)] show ?thesis
    by (simp add: polydataToModel_def)
next
  case False
  from finished_commit [OF assms(1) False _ assms(2), of CreatingModel] False show ?thesis
    by (simp add: polydataToModel_def Let_def)
qed

lemma polydataToSegment_finished:
  assumes "midRun e n0 c0 a0 pd0 s"
    and "filterMode opts = MODE_NONMANIFOLD \<longrightarrow> outputType opts \<noteq> OUTPUT_SEGMENTATION"
  shows "finished e n0 c0 a0 pd0 opts (Returned b) (cleanup e (snd (polydataToSegment e out sm s)))"
proof (cases "cancelRequested s")
  case True
  with finished_cleanup_cleanup [OF assms(1)] show ?thesis
    by (simp add: polydataToSegment_def)
next
  case False
  from finished_commit [OF assms(1) False _ assms(2), of UpdatingSegmentation] False show ?thesis
    by (simp add: polydataToSegment_def Let_def)
qed

lemma dispatchOutput_finished:
  assumes "midRun e n0 c0 a0 pd0 s"
    and "filterMode opts = MODE_NONMANIFOLD \<longrightarrow> outputType opts \<noteq> OUTPUT_SEGMENTATION"
  shows "fst (dispatchOutput e opts out s) \<noteq> Continue \<and>
         finished e n0 c0 a0 pd0 opts (fst (dispatchOutput e opts out s))
           (snd (dispatchOutput e opts out s))"
  using polydataToModel_finished [OF assms] polydataToSegment_finished [OF assms]
    finished_logError [OF assms(1)]
  by (simp add: dispatchOutput_def)

lemma OUTPUT_distinct: "OUTPUT_MODEL \<noteq> OUTPUT_SEGMENTATION"
  by (simp add: OUTPUT_MODEL_def OUTPUT_SEGMENTATION_def)

lemma MODE_distinct:
  "MODE_CONVEXHULL \<noteq> MODE_NONMANIFOLD" "MODE_RAYCASTS \<noteq> MODE_NONMANIFOLD"
  "MODE_DEEPHULL \<noteq> MODE_NONMANIFOLD" "MODE_SOLIDIFIED \<noteq> MODE_NONMANIFOLD"
  by (simp_all add: MODE_CONVEXHULL_def MODE_RAYCASTS_def MODE_DEEPHULL_def MODE_SOLIDIFIED_def
      MODE_NONMANIFOLD_def)

lemma dispatch_afterStage:
  assumes "midRun e n0 c0 a0 pd0 s" and "mode \<noteq> MODE_NONMANIFOLD"
  shows "afterStage e n0 c0 a0 pd0 opts (dispatch mode e opts s)"
proof (cases "filterMode opts = mode")
  case True
  with assms(2) have "filterMode opts = MODE_NONMANIFOLD \<longrightarrow> outputType opts \<noteq> OUTPUT_SEGMENTATION"
    by simp
  from dispatchOutput_finished [OF assms(1) this] True show ?thesis
    by (simp add: afterStage_def dispatch_def)
next
  case False
  with assms(1) show ?thesis by (simp add: afterStage_def dispatch_def)
qed

lemma dispatchNonmanifold_afterStage:
  assumes "midRun e n0 c0 a0 pd0 s"
  shows "afterStage e n0 c0 a0 pd0 opts (dispatchNonmanifold e opts s)"
proof (cases "filterMode opts = MODE_NONMANIFOLD")
  case False
  with assms show ?thesis by (simp add: afterStage_def dispatchNonmanifold_def)
next
  case nm: True
  show ?thesis
  proof (cases "outputType opts = OUTPUT_SEGMENTATION")
    case True
    with nm finished_cleanup_logError [OF assms] show ?thesis
      by (simp add: afterStage_def dispatchNonmanifold_def)
  next
    case False
    then have "filterMode opts = MODE_NONMANIFOLD \<longrightarrow> outputType opts \<noteq> OUTPUT_SEGMENTATION"
      by simp
    from polydataToModel_finished [OF assms this] finished_logError [OF assms] nm False show ?thesis
      by (simp add: afterStage_def dispatchNonmanifold_def)
  qed
qed

lemma afterStage_Continue [simp]: "afterStage e n0 c0 a0 pd0 opts (Continue, s) = midRun e n0 c0 a0 pd0 s"
  by (simp add: afterStage_def)

lemma afterStage_Returned [simp]:
  "afterStage e n0 c0 a0 pd0 opts (Returned b, s) = finished e n0 c0 a0 pd0 opts (Returned b) s"
  by (simp add: afterStage_def)

lemma afterStage_Raised [simp]:
  "afterStage e n0 c0 a0 pd0 opts (Raised err, s) = finished e n0 c0 a0 pd0 opts (Raised err) s"
  by (simp add: afterStage_def)

lemma firstLoop_afterStage:
  "midRun e n0 c0 a0 pd0 s \<Longrightarrow> afterStage e n0 c0 a0 pd0 opts (firstLoop e opts x k s)"
proof (induction k arbitrary: x s)
  case 0
  then show ?case by simp
next
  case (Suc k)
  note inv = Suc.prems
  show ?case
  proof (cases "cancelRequested s")
    case True
    with finished_cleanup [OF inv] show ?thesis by simp
  next
    case nc: False
    let ?s1 = "logCallback e
                   (Shrinkwrapping (int x + 1) (py_int (iterationsFirstShrinkwrap opts))) s"
    let ?s2 = "DeepCopy (shrinkModelPD ?s1)
                   ((working ?s1)\<lparr>points := shrinkwrapPoints (FindClosestPoint e (inputSurface ?s1))
                                     (offsetFirstShrinkwrap opts) (points (working ?s1))\<rparr>) ?s1"
    let ?s3 = "logCallback e
                        (Remeshing (int x + 1) (py_int (iterationsSecondShrinkwrap opts))) ?s2"
    have i1: "midRun e n0 c0 a0 pd0 ?s1" using inv nc by (rule midRun_log)
    have i2: "midRun e n0 c0 a0 pd0 ?s2" using i1 by (rule midRun_working)
    show ?thesis
    proof (cases "int x = py_int (iterationsFirstShrinkwrap opts) - 1")
      case True
      with nc i2 show ?thesis by (simp add: Let_def)
    next
      case nl: False
      show ?thesis
      proof (cases "cancelRequested ?s2")
        case True
        with finished_cleanup [OF i2] nc nl show ?thesis by (simp add: Let_def)
      next
        case nc2: False
        have i3: "midRun e n0 c0 a0 pd0 ?s3" using i2 nc2 by (rule midRun_log)
        show ?thesis
        proof (cases "remeshPolydata e (working ?s3)
                       [spacingFirstRemesh opts, spacingFirstRemesh opts, spacingFirstRemesh opts]")
          case (Inl err)
          with finished_Inv [OF i3] nc nl nc2 show ?thesis by (simp add: Let_def)
        next
          case (Inr r)
          have "afterStage e n0 c0 a0 pd0 opts
                  (firstLoop e opts (Suc x) k (DeepCopy (shrinkModelPD ?s3) r ?s3))"
            by (rule Suc.IH [OF midRun_working [OF i3]])
          with Inr nc nl nc2 show ?thesis by (simp add: Let_def)
        qed
      qed
    qed
  qed
qed

lemma firstShrinkwrap_afterStage:
  "midRun e n0 c0 a0 pd0 s \<Longrightarrow> afterStage e n0 c0 a0 pd0 opts (firstShrinkwrap e opts s)"
  unfolding firstShrinkwrap_def by (rule firstLoop_afterStage)

lemma midRun_shrink_ne: "midRun e n0 c0 a0 pd0 s \<Longrightarrow> shrinkModelPD s \<noteq> a0"
  by (simp add: midRun_def)

lemma midRun_next_ne: "midRun e n0 c0 a0 pd0 s \<Longrightarrow> nextAddr s \<noteq> a0"
  by (auto simp: midRun_def)

lemma raycast_cancelled_first:
  "cancelRequested s \<Longrightarrow> raycast e opts s = (Returned False, cleanup e s)"
  by (simp add: raycast_def)

lemma raycast_raises:
  "\<not> cancelRequested s \<Longrightarrow>
   findLargeCells (working (logCallback e Raycasting s)) (raycastSearchEdgeLength opts) = Inl err \<Longrightarrow>
   raycast e opts s = (Raised err, logCallback e Raycasting s)"
  by (simp add: raycast_def Let_def)

lemma raycast_cancelled_second:
  assumes "\<not> cancelRequested s"
    and "findLargeCells (working (logCallback e Raycasting s)) (raycastSearchEdgeLength opts) = Inr ids"
    and "cancelRequested (subdivided e opts ids s)"
  shows "raycast e opts s = (Returned False, cleanup e (subdivided e opts ids s))"
  using assms(3)
  unfolding raycast_def subdivided_def Let_def case_prod_beta
  by (simp only: assms(1,2) if_False if_True sum.case)

lemma raycast_no_candidates:
  assumes "\<not> cancelRequested s"
    and "findLargeCells (working (logCallback e Raycasting s)) (raycastSearchEdgeLength opts) = Inr ids"
    and "\<not> cancelRequested (subdivided e opts ids s)"
    and "\<not> (length ids > 0 \<and> raycastMaxLength opts > 0)"
  shows "raycast e opts s = (Continue, subdivided e opts ids s)"
  using assms(3)
  unfolding raycast_def subdivided_def Let_def case_prod_beta
  by (simp only: assms(1,2,4) if_False if_True sum.case)

lemma raycast_candidates:
  assumes "\<not> cancelRequested s"
    and "findLargeCells (working (logCallback e Raycasting s)) (raycastSearchEdgeLength opts) = Inr ids"
    and "\<not> cancelRequested (subdivided e opts ids s)"
    and "length ids > 0 \<and> raycastMaxLength opts > 0"
  shows "raycast e opts s =
     (case raycastVertices
             (IntersectWithLine e (inputSurface (projected e opts (subdivided e opts ids s))))
             (snd (pointNormals e (working (subdivided e opts ids s))))
             (filter (\<lambda>p. \<bar>vtkImplicitPolyDataDistance e
                              (store (subdivided e opts ids s)
                                 (fst (newPolyData (logCallback e Raycasting s))))
                              (points (working (subdivided e opts ids s)) ! p)\<bar> < 1)
                [0..<length (points (working (subdivided e opts ids s)))])
             (raycastMaxLength opts) (raycastMinLength opts) (raycastMaxHitDistance opts)
             (working (projected e opts (subdivided e opts ids s))) of
        Inl err \<Rightarrow> (Raised err, projected e opts (subdivided e opts ids s))
      | Inr pd' \<Rightarrow>
          (Continue,
           DeepCopy (shrinkModelPD (projected e opts (subdivided e opts ids s))) pd'
             (projected e opts (subdivided e opts ids s))))"
  using assms(3)
  unfolding raycast_def subdivided_def projected_def Let_def case_prod_beta
  by (simp only: assms(1,2,4) if_False if_True sum.case simp_thms)

lemma midRun_subdivided:
  assumes inv: "midRun e n0 c0 a0 pd0 s" and nc: "\<not> cancelRequested s"
  shows "midRun e n0 c0 a0 pd0 (subdivided e opts ids s)"
proof -
  let ?s1 = "logCallback e Raycasting s"
  let ?a = "fst (newPolyData ?s1)"
  let ?s2 = "snd (newPolyData ?s1)"
  have i1: "midRun e n0 c0 a0 pd0 ?s1" using inv nc by (rule midRun_log)
  have ne: "?a \<noteq> a0" using i1 by (rule midRun_new_addr)
  have i2: "midRun e n0 c0 a0 pd0 ?s2" using i1 by (rule midRun_new)
  have i3: "midRun e n0 c0 a0 pd0 (DeepCopy ?a pd ?s2)" for pd
    using i2 ne by (rule midRun_DeepCopy)
  have i4: "midRun e n0 c0 a0 pd0 (DeepCopy ?a pd' (DeepCopy ?a pd ?s2))" for pd pd'
    using i3 ne by (rule midRun_DeepCopy)
  have i5: "midRun e n0 c0 a0 pd0
     (DeepCopy (shrinkModelPD (DeepCopy ?a pd' (DeepCopy ?a pd ?s2))) pd''
        (DeepCopy ?a pd' (DeepCopy ?a pd ?s2)))" for pd pd' pd''
    using i4 by (rule midRun_working)
  show ?thesis
    unfolding subdivided_def Let_def case_prod_beta by (rule i5)
qed

lemma midRun_projected: "midRun e n0 c0 a0 pd0 s \<Longrightarrow> midRun e n0 c0 a0 pd0 (projected e opts s)"
  unfolding projected_def by (rule midRun_working)

lemma raycast_afterStage:
  assumes inv: "midRun e n0 c0 a0 pd0 s"
  shows "afterStage e n0 c0 a0 pd0 opts (raycast e opts s)"
proof (cases "cancelRequested s")
  case True
  with finished_cleanup [OF inv] show ?thesis by (simp add: raycast_cancelled_first)
next
  case nc: False
  show ?thesis
  proof (cases "findLargeCells (working (logCallback e Raycasting s)) (raycastSearchEdgeLength opts)")
    case (Inl err)
    from finished_Inv [OF midRun_log [OF inv nc]] show ?thesis
      unfolding raycast_raises [OF nc Inl] afterStage_Raised .
  next
    case (Inr ids)
    let ?s5 = "subdivided e opts ids s"
    have i5: "midRun e n0 c0 a0 pd0 ?s5" using inv nc by (rule midRun_subdivided)
    show ?thesis
    proof (cases "cancelRequested ?s5")
      case True
      from finished_cleanup [OF i5] show ?thesis
        unfolding raycast_cancelled_second [OF nc Inr True] afterStage_Returned .
    next
      case nc5: False
      show ?thesis
      proof (cases "length ids > 0 \<and> raycastMaxLength opts > 0")
        case False
        from i5 show ?thesis
          unfolding raycast_no_candidates [OF nc Inr nc5 False] afterStage_Continue .
      next
        case True
        have i6: "midRun e n0 c0 a0 pd0 (projected e opts ?s5)" using i5 by (rule midRun_projected)
        have i7: "midRun e n0 c0 a0 pd0
           (DeepCopy (shrinkModelPD (projected e opts ?s5)) pd' (projected e opts ?s5))" for pd'
          using i6 by (rule midRun_working)
        from finished_Inv [OF i6] i7 show ?thesis
          unfolding raycast_candidates [OF nc Inr nc5 True]
          by (simp split: sum.splits)
      qed
    qed
  qed
qed

lemma secondLoop_afterStage:
  "midRun e n0 c0 a0 pd0 s \<Longrightarrow> afterStage e n0 c0 a0 pd0 opts (secondLoop e opts x k s)"
proof (induction k arbitrary: x s)
  case 0
  then show ?case by simp
next
  case (Suc k)
  note inv = Suc.prems
  show ?case
  proof (cases "cancelRequested s")
    case True
    with finished_cleanup [OF inv] show ?thesis by simp
  next
    case nc: False
    let ?s1 = "logCallback e
                   (Remeshing (int x + 1) (py_int (iterationsSecondShrinkwrap opts) + 1)) s"
    have i1: "midRun e n0 c0 a0 pd0 ?s1" using inv nc by (rule midRun_log)
    show ?thesis
    proof (cases "remeshPolydata e (working ?s1)
                  [spacingSecondRemesh opts, spacingSecondRemesh opts, spacingSecondRemesh opts]")
      case (Inl err)
      with finished_Inv [OF i1] nc show ?thesis by (simp add: Let_def)
    next
      case (Inr r)
      let ?s2 = "DeepCopy (shrinkModelPD ?s1) r ?s1"
      let ?s3 = "logCallback e
                   (Shrinkwrapping (int x + 1) (py_int (iterationsSecondShrinkwrap opts))) ?s2"
      let ?s4 = "DeepCopy (shrinkModelPD ?s3)
                   (vtkSmoothPolyDataFilter e (working ?s3) (inputSurface ?s3)) ?s3"
      have i2: "midRun e n0 c0 a0 pd0 ?s2" using i1 by (rule midRun_working)
      show ?thesis
      proof (cases "int x = py_int (iterationsSecondShrinkwrap opts)")
        case True
        with nc Inr i2 show ?thesis by (simp add: Let_def)
      next
        case nl: False
        show ?thesis
        proof (cases "cancelRequested ?s2")
          case True
          with finished_cleanup [OF i2] nc nl Inr show ?thesis by (simp add: Let_def)
        next
          case nc2: False
          have i3: "midRun e n0 c0 a0 pd0 ?s3" using i2 nc2 by (rule midRun_log)
          have "afterStage e n0 c0 a0 pd0 opts (secondLoop e opts (Suc x) k ?s4)"
            by (rule Suc.IH [OF midRun_working [OF i3]])
          with Inr nc nl nc2 show ?thesis by (simp add: Let_def)
        qed
      qed
    qed
  qed
qed

lemma secondShrinkwrap_afterStage:
  assumes "midRun e n0 c0 a0 pd0 s"
  shows "afterStage e n0 c0 a0 pd0 opts (secondShrinkwrap e opts s)"
proof -
  obtain oc s' where r: "secondLoop e opts 0 (nat (py_int (iterationsSecondShrinkwrap opts) + 1)) s = (oc, s')"
    by (cases "secondLoop e opts 0 (nat (py_int (iterationsSecondShrinkwrap opts) + 1)) s")
  from secondLoop_afterStage [OF assms, of opts 0 "nat (py_int (iterationsSecondShrinkwrap opts) + 1)"] r
  have p: "afterStage e n0 c0 a0 pd0 opts (oc, s')" by simp
  show ?thesis
  proof (cases oc)
    case Continue
    with p have "midRun e n0 c0 a0 pd0 s'" by simp
    then have "midRun e n0 c0 a0 pd0
       (DeepCopy (shrinkModelPD s') (vtkWindowedSincPolyDataFilter e (working s')) s')"
      by (rule midRun_working)
    with r Continue show ?thesis by (simp add: secondShrinkwrap_def)
  next
    case (Returned b)
    with p r show ?thesis by (simp add: secondShrinkwrap_def)
  next
    case (Raised err)
    with p r show ?thesis by (simp add: secondShrinkwrap_def)
  qed
qed

lemma removeCaps_afterStage:
  assumes inv: "midRun e n0 c0 a0 pd0 s"
  shows "afterStage e n0 c0 a0 pd0 opts (removeCaps e opts s)"
proof (cases "cancelRequested s")
  case True
  with finished_cleanup [OF inv] show ?thesis by (simp add: removeCaps_def)
next
  case nc: False
  let ?s1 = "logCallback e RemovingCaps s"
  let ?a = "fst (newPolyData ?s1)"
  let ?s2 = "snd (newPolyData ?s1)"
  have i1: "midRun e n0 c0 a0 pd0 ?s1" using inv nc by (rule midRun_log)
  have ne: "?a \<noteq> a0" using i1 by (rule midRun_new_addr)
  have i2: "midRun e n0 c0 a0 pd0 ?s2" using i1 by (rule midRun_new)
  have i3: "midRun e n0 c0 a0 pd0 (DeepCopy ?a pd ?s2)" for pd
    using i2 ne by (rule midRun_DeepCopy)
  have i4: "midRun e n0 c0 a0 pd0 (DeepCopy ?a pd' (DeepCopy ?a pd ?s2))" for pd pd'
    using i3 ne by (rule midRun_DeepCopy)
  have i5: "midRun e n0 c0 a0 pd0
     (DeepCopy (shrinkModelPD (DeepCopy ?a pd' (DeepCopy ?a pd ?s2))) pd''
        (DeepCopy ?a pd' (DeepCopy ?a pd ?s2)))" for pd pd' pd''
    using i4 by (rule midRun_working)
  show ?thesis
    unfolding removeCaps_def Let_def case_prod_beta
    by (simp only: nc if_False afterStage_Continue) (rule i5)
qed

lemma solidify_afterStage:
  assumes inv: "midRun e n0 c0 a0 pd0 s"
  shows "fst (solidify e opts s) \<noteq> Continue \<and>
         finished e n0 c0 a0 pd0 opts (fst (solidify e opts s)) (snd (solidify e opts s))"
proof (cases "cancelRequested s")
  case True
  with finished_cleanup [OF inv] show ?thesis by (simp add: solidify_def)
next
  case nc: False
  let ?s1 = "logCallback e Solidifying s"
  let ?s2 = "DeepCopy (shrinkModelPD ?s1) (fst (cellNormals e (vtkCleanPolyData e (working ?s1)))) ?s1"
  have i1: "midRun e n0 c0 a0 pd0 ?s1" using inv nc by (rule midRun_log)
  have i2: "midRun e n0 c0 a0 pd0 ?s2" using i1 by (rule midRun_working)
  show ?thesis
  proof (cases "manifoldPD (IsInsertedPoint e) (solidificationThickness opts) (working ?s2)
                  (snd (cellNormals e (vtkCleanPolyData e (working ?s1))))
                  (vtkFeatureEdges e (fst (cellNormals e (vtkCleanPolyData e (working ?s1)))))")
    case (Inl err)
    have "solidify e opts s = (Raised err, ?s2)"
      unfolding solidify_def Let_def case_prod_beta
      by (simp only: nc Inl if_False sum.case)
    with finished_Inv [OF i2] show ?thesis by simp
  next
    case (Inr m)
    show ?thesis
    proof (cases "filterMode opts = MODE_SOLIDIFIED")
      case True
      have eq: "solidify e opts s = dispatchOutput e opts (vtkTriangleFilter e m) ?s2"
        unfolding solidify_def Let_def case_prod_beta
        by (simp only: nc Inr True if_False if_True sum.case simp_thms)
      from True have "filterMode opts = MODE_NONMANIFOLD \<longrightarrow> outputType opts \<noteq> OUTPUT_SEGMENTATION"
        using MODE_distinct(4) by simp
      from dispatchOutput_finished [OF i2 this] show ?thesis unfolding eq .
    next
      case False
      have "solidify e opts s = (Returned False, logError ''unknown filterMode.'' ?s2)"
        unfolding solidify_def Let_def case_prod_beta
        by (simp only: nc Inr False if_False sum.case)
      with finished_logError [OF i2] show ?thesis by simp
    qed
  qed
qed

lemma solidify_afterStage': 
  "midRun e n0 c0 a0 pd0 s \<Longrightarrow> afterStage e n0 c0 a0 pd0 opts (solidify e opts s)"
  using solidify_afterStage [of e n0 c0 a0 pd0 s opts] by (simp add: afterStage_def)

lemma afterStage_finished:
  "afterStage e n0 c0 a0 pd0 opts r \<Longrightarrow> finished e n0 c0 a0 pd0 opts (fst r) (snd r)"
  by (cases "fst r = Continue") (simp_all add: afterStage_def finished_Inv)

lemma runStages_afterStage:
  assumes "\<forall>f \<in> set fs. \<forall>s. midRun e n0 c0 a0 pd0 s \<longrightarrow> afterStage e n0 c0 a0 pd0 opts (f s)"
    and "midRun e n0 c0 a0 pd0 s"
  shows "afterStage e n0 c0 a0 pd0 opts (runStages fs s)"
  using assms
proof (induction fs arbitrary: s)
  case Nil
  then show ?case by simp
next
  case (Cons f fs)
  from Cons.prems have pf: "afterStage e n0 c0 a0 pd0 opts (f s)" by simp
  obtain oc s' where r: "f s = (oc, s')" by (cases "f s")
  show ?case
  proof (cases oc)
    case Continue
    with pf r have "midRun e n0 c0 a0 pd0 s'" by simp
    with Cons.IH [of s'] Cons.prems(1) have "afterStage e n0 c0 a0 pd0 opts (runStages fs s')" by simp
    with r Continue show ?thesis by simp
  next
    case (Returned b)
    with pf r show ?thesis by simp
  next
    case (Raised err)
    with pf r show ?thesis by simp
  qed
qed

lemma pipeline_stages_afterStage:
  "\<forall>f \<in> set (pipeline e opts). \<forall>s. midRun e n0 c0 a0 pd0 s \<longrightarrow> afterStage e n0 c0 a0 pd0 opts (f s)"
  by (simp add: pipeline_def firstShrinkwrap_afterStage dispatch_afterStage MODE_distinct raycast_afterStage
      secondShrinkwrap_afterStage removeCaps_afterStage dispatchNonmanifold_afterStage solidify_afterStage')

lemma pipeline_prefix_afterStage:
  assumes "midRun e n0 c0 a0 pd0 s"
  shows "afterStage e n0 c0 a0 pd0 opts (runStages (take n (pipeline e opts)) s)"
proof (rule runStages_afterStage [OF _ assms])
  show "\<forall>f \<in> set (take n (pipeline e opts)). \<forall>s. midRun e n0 c0 a0 pd0 s \<longrightarrow> afterStage e n0 c0 a0 pd0 opts (f s)"
    using pipeline_stages_afterStage [of e opts n0 c0 a0 pd0] by (meson in_set_takeD)
qed

lemma prepare_Inv:
  "midRun e (length (progress s)) (calls (prepare e opts s)) (nextAddr s)
     (closedSurface e (smoothingFactor opts)) (prepare e opts s)"
  by (simp add: prepare_def Let_def case_prod_beta midRun_def noEarlierClick_def newPolyData_def
      DeepCopy_def logCallback_def inputSurface_def)

lemma take_pipeline: "take 9 (pipeline e opts) = pipeline e opts"
  by (simp add: pipeline_def)

lemma run_finished:
  "finished e (length (progress s)) (calls (prepare e opts s)) (nextAddr s)
     (closedSurface e (smoothingFactor opts)) opts
     (fst (ApplySRSFilter e opts s)) (snd (ApplySRSFilter e opts s))"
  using pipeline_prefix_afterStage [OF prepare_Inv, of e s opts opts 9, THEN afterStage_finished]
  by (simp add: take_pipeline ApplySRSFilter_def)

lemma prepare_input:
  "inputPolyData (prepare e opts s) = nextAddr s \<and>
   inputSurface (prepare e opts s) = closedSurface e (smoothingFactor opts)"
  using prepare_Inv [of e s opts] by (simp add: midRun_def inputSurface_def)

lemma prepare_calls:
  "calls (prepare e opts s) =
     calls s @ [SetConversionParameter (smoothingFactor opts), RemoveClosedSurfaceRepresentation,
                CreateClosedSurfaceRepresentation, Modified] @
     (if hasDisplayNode e then [UpdateScene] else []) @ [Modified]"
  by (simp add: prepare_def Let_def case_prod_beta newPolyData_def DeepCopy_def logCallback_def)

text \<open>
  Claim C9. No stage mutates the input surface. After any number \<open>n\<close> of stages of the
  pipeline, run from the prepared state (so: when the first shrinkwrap, the raycast, the
  second shrinkwrap or the cap removal is about to start, and when the run has ended), the
  variable \<^verbatim>\<open>inputPolyData\<close> still names the object fetched from the segment at run
  start, and that object still has the content it was fetched with. Every write of the
  run goes to the working mesh or to a freshly allocated object, none of which is the
  input's object.
\<close>

theorem input_surface_never_mutated:
  "inputPolyData (snd (runStages (take n (pipeline e opts)) (prepare e opts s)))
     = inputPolyData (prepare e opts s) \<and>
   inputSurface (snd (runStages (take n (pipeline e opts)) (prepare e opts s)))
     = inputSurface (prepare e opts s) \<and>
   inputSurface (prepare e opts s) = closedSurface e (smoothingFactor opts)"
proof -
  let ?s' = "snd (runStages (take n (pipeline e opts)) (prepare e opts s))"
  from pipeline_prefix_afterStage [OF prepare_Inv, of e s opts opts n, THEN afterStage_finished]
  have a: "inputPolyData ?s' = nextAddr s"
    and b: "store ?s' (nextAddr s) = closedSurface e (smoothingFactor opts)"
    by (simp_all add: finished_def)
  from prepare_input [of e opts s]
  have c: "inputPolyData (prepare e opts s) = nextAddr s"
    and d: "inputSurface (prepare e opts s) = closedSurface e (smoothingFactor opts)"
    by simp_all
  have "inputSurface ?s' = closedSurface e (smoothingFactor opts)"
    unfolding inputSurface_def a by (rule b)
  with a c d show ?thesis by simp
qed

lemma cancelled_stage_returns_False:
  assumes "cancelRequested t"
  shows "firstLoop e opts x (Suc j) t = (Returned False, cleanup e t) \<and>
         raycast e opts t = (Returned False, cleanup e t) \<and>
         secondLoop e opts x (Suc j) t = (Returned False, cleanup e t) \<and>
         removeCaps e opts t = (Returned False, cleanup e t) \<and>
         solidify e opts t = (Returned False, cleanup e t)"
  using assms by (simp add: raycast_def removeCaps_def solidify_def)

text \<open>
  Claim C2, as the code has it. When a cancel request arrives during a progress callback
  of the run that is neither the announcement of a commit nor the run's last callback,
  the run stops at its next cancellation check: it returns a boolean, nothing but the
  cleanup's empty text is shown afterwards, and the only calls made on the caller's
  objects are those of the preparation at run start (the conversion parameter set, the
  closed surface removed and created again, the node marked modified), so no model is added
  and the segment is not replaced. A stage of the pipeline body entered with the flag set
  returns \<open>False\<close> at once, the value a failed run returns too, after clearing the
  progress text.
\<close>

theorem cancellation_commits_nothing:
  assumes "length (progress s) \<le> k" and "clicks e k"
    and "Suc k < length (progress (snd (ApplySRSFilter e opts s)))"
    and "progress (snd (ApplySRSFilter e opts s)) ! k \<noteq> CreatingModel"
    and "progress (snd (ApplySRSFilter e opts s)) ! k \<noteq> UpdatingSegmentation"
  shows "(\<exists>b. fst (ApplySRSFilter e opts s) = Returned b) \<and>
         set (drop (Suc k) (progress (snd (ApplySRSFilter e opts s)))) \<subseteq> {Cleared} \<and>
         calls (snd (ApplySRSFilter e opts s)) =
           calls s @ [SetConversionParameter (smoothingFactor opts),
                      RemoveClosedSurfaceRepresentation, CreateClosedSurfaceRepresentation,
                      Modified] @
           (if hasDisplayNode e then [UpdateScene] else []) @ [Modified] \<and>
         (\<forall>t x j. cancelRequested t \<longrightarrow>
            firstLoop e opts x (Suc j) t = (Returned False, cleanup e t) \<and>
            raycast e opts t = (Returned False, cleanup e t) \<and>
            secondLoop e opts x (Suc j) t = (Returned False, cleanup e t) \<and>
            removeCaps e opts t = (Returned False, cleanup e t) \<and>
            solidify e opts t = (Returned False, cleanup e t))"
proof -
  from run_finished [of e s opts]
  have "stopped e (length (progress s)) (calls (prepare e opts s))
          (fst (ApplySRSFilter e opts s)) (snd (ApplySRSFilter e opts s))"
    by (simp add: finished_def)
  from this [unfolded stopped_def, rule_format, OF assms]
  have "calls (snd (ApplySRSFilter e opts s)) = calls (prepare e opts s) \<and>
        set (drop (Suc k) (progress (snd (ApplySRSFilter e opts s)))) \<subseteq> {Cleared} \<and>
        (\<exists>b. fst (ApplySRSFilter e opts s) = Returned b)" .
  then show ?thesis
    using cancelled_stage_returns_False [of _ e opts]
    by (simp only: prepare_calls) blast
qed

lemma quiet_trans:
  "quiet s' r \<Longrightarrow> errorLog s' = errorLog s \<Longrightarrow> set (progress s) \<subseteq> set (progress s') \<Longrightarrow>
   quiet s r"
  by (auto simp: quiet_def)

lemma quiet_Raised [simp]: "quiet s (Raised err, s')"
  by (simp add: quiet_def)

lemma quiet_Continue:
  "\<not> cancelRequested s' \<Longrightarrow> errorLog s' = errorLog s \<Longrightarrow>
   set (progress s) \<subseteq> set (progress s') \<Longrightarrow> quiet s (Continue, s')"
  by (simp add: quiet_def)

lemma firstLoop_quiet:
  assumes nk: "noClicks e"
  shows "\<not> cancelRequested s \<Longrightarrow> quiet s (firstLoop e opts x k s)"
proof (induction k arbitrary: x s)
  case 0
  then show ?case by (simp add: quiet_def)
next
  case (Suc k)
  note nc = Suc.prems
  let ?s1 = "logCallback e
                   (Shrinkwrapping (int x + 1) (py_int (iterationsFirstShrinkwrap opts))) s"
  let ?s2 = "DeepCopy (shrinkModelPD ?s1)
                   ((working ?s1)\<lparr>points := shrinkwrapPoints (FindClosestPoint e (inputSurface ?s1))
                                     (offsetFirstShrinkwrap opts) (points (working ?s1))\<rparr>) ?s1"
  let ?s3 = "logCallback e
                        (Remeshing (int x + 1) (py_int (iterationsSecondShrinkwrap opts))) ?s2"
  have nc2: "\<not> cancelRequested ?s2" using nc nk by (simp add: noClicks_def)
  have nc3: "\<not> cancelRequested ?s3" using nc nk by (simp add: noClicks_def)
  show ?case
  proof (cases "int x = py_int (iterationsFirstShrinkwrap opts) - 1")
    case True
    have "quiet s (Continue, ?s2)" using nc2 by (rule quiet_Continue) auto
    with nc True show ?thesis by (simp add: Let_def)
  next
    case nl: False
    show ?thesis
    proof (cases "remeshPolydata e (working ?s3)
                       [spacingFirstRemesh opts, spacingFirstRemesh opts, spacingFirstRemesh opts]")
      case (Inl err)
      with nc nl nc2 show ?thesis by (simp add: Let_def)
    next
      case (Inr r)
      let ?s4 = "DeepCopy (shrinkModelPD ?s3) r ?s3"
      have "\<not> cancelRequested ?s4" using nc3 by simp
      then have "quiet ?s4 (firstLoop e opts (Suc x) k ?s4)" by (rule Suc.IH)
      then have "quiet s (firstLoop e opts (Suc x) k ?s4)"
        by (rule quiet_trans) auto
      with Inr nc nl nc2 show ?thesis by (simp add: Let_def)
    qed
  qed
qed

lemma secondLoop_quiet:
  assumes nk: "noClicks e"
  shows "\<not> cancelRequested s \<Longrightarrow> quiet s (secondLoop e opts x k s)"
proof (induction k arbitrary: x s)
  case 0
  then show ?case by (simp add: quiet_def)
next
  case (Suc k)
  note nc = Suc.prems
  let ?s1 = "logCallback e
                   (Remeshing (int x + 1) (py_int (iterationsSecondShrinkwrap opts) + 1)) s"
  have nc1: "\<not> cancelRequested ?s1" using nc nk by (simp add: noClicks_def)
  show ?case
  proof (cases "remeshPolydata e (working ?s1)
                  [spacingSecondRemesh opts, spacingSecondRemesh opts, spacingSecondRemesh opts]")
    case (Inl err)
    with nc show ?thesis by (simp add: Let_def)
  next
    case (Inr r)
    let ?s2 = "DeepCopy (shrinkModelPD ?s1) r ?s1"
    let ?s3 = "logCallback e
                   (Shrinkwrapping (int x + 1) (py_int (iterationsSecondShrinkwrap opts))) ?s2"
    let ?s4 = "DeepCopy (shrinkModelPD ?s3)
                   (vtkSmoothPolyDataFilter e (working ?s3) (inputSurface ?s3)) ?s3"
    have nc2: "\<not> cancelRequested ?s2" using nc1 by simp
    show ?thesis
    proof (cases "int x = py_int (iterationsSecondShrinkwrap opts)")
      case True
      have "quiet s (Continue, ?s2)" using nc2 by (rule quiet_Continue) auto
      with nc Inr True show ?thesis by (simp add: Let_def)
    next
      case nl: False
      have "\<not> cancelRequested ?s4" using nc nk by (simp add: noClicks_def)
      then have "quiet ?s4 (secondLoop e opts (Suc x) k ?s4)" by (rule Suc.IH)
      then have "quiet s (secondLoop e opts (Suc x) k ?s4)"
        by (rule quiet_trans) auto
      with Inr nc nl nc2 show ?thesis by (simp add: Let_def)
    qed
  qed
qed

lemma secondShrinkwrap_quiet:
  assumes "noClicks e" and "\<not> cancelRequested s"
  shows "quiet s (secondShrinkwrap e opts s)"
proof -
  obtain oc s' where r: "secondLoop e opts 0 (nat (py_int (iterationsSecondShrinkwrap opts) + 1)) s = (oc, s')"
    by (cases "secondLoop e opts 0 (nat (py_int (iterationsSecondShrinkwrap opts) + 1)) s")
  from secondLoop_quiet [OF assms, of opts 0 "nat (py_int (iterationsSecondShrinkwrap opts) + 1)"] r
  have q: "quiet s (oc, s')" by simp
  then show ?thesis
    using r by (cases oc) (auto simp: secondShrinkwrap_def quiet_def)
qed

lemma raycast_quiet:
  assumes nk: "noClicks e" and nc: "\<not> cancelRequested s"
  shows "quiet s (raycast e opts s) \<and>
         (fst (raycast e opts s) = Continue \<longrightarrow> Raycasting \<in> set (progress (snd (raycast e opts s))))"
proof (cases "findLargeCells (working (logCallback e Raycasting s)) (raycastSearchEdgeLength opts)")
  case (Inl err)
  show ?thesis unfolding raycast_raises [OF nc Inl] by simp
next
  case (Inr ids)
  let ?s5 = "subdivided e opts ids s"
  have p5: "progress ?s5 = progress s @ [Raycasting]" and e5: "errorLog ?s5 = errorLog s"
    and nc5: "\<not> cancelRequested ?s5"
    using nc nk by (simp_all add: subdivided_def Let_def case_prod_beta noClicks_def)
  show ?thesis
  proof (cases "length ids > 0 \<and> raycastMaxLength opts > 0")
    case False
    show ?thesis
      unfolding raycast_no_candidates [OF nc Inr nc5 False]
      using p5 e5 nc5 by (auto simp: quiet_def)
  next
    case True
    let ?s6 = "projected e opts ?s5"
    have 6: "progress ?s6 = progress s @ [Raycasting]" "errorLog ?s6 = errorLog s"
      "\<not> cancelRequested ?s6"
      using p5 e5 nc5 by (simp_all add: projected_def)
    show ?thesis
      unfolding raycast_candidates [OF nc Inr nc5 True]
      using 6 by (auto simp: quiet_def split: sum.splits)
  qed
qed

lemma removeCaps_quiet:
  assumes nk: "noClicks e" and nc: "\<not> cancelRequested s"
  shows "quiet s (removeCaps e opts s) \<and>
         (fst (removeCaps e opts s) = Continue \<longrightarrow>
            RemovingCaps \<in> set (progress (snd (removeCaps e opts s))))"
  using nk nc by (auto simp: removeCaps_def Let_def case_prod_beta quiet_def noClicks_def)

lemma working_subdivided:
  "shrinkModelPD s < nextAddr s \<Longrightarrow>
   working (subdivided e opts ids s) =
     vtkCleanPolyData e
       (vtkAdaptiveSubdivisionFilter e (raycastOutputEdgeLength opts) (working s))"
  by (simp add: subdivided_def working_def Let_def case_prod_beta)

lemma cancelRequested_subdivided:
  "cancelRequested (subdivided e opts ids s) =
     (cancelRequested s \<or> clicks e (length (progress s)))"
  by (simp add: subdivided_def Let_def case_prod_beta)

lemma working_logCallback [simp]: "working (logCallback e m s) = working s"
  by (simp add: working_def)

lemma working_cleanup [simp]: "working (cleanup e s) = working s"
  by (simp add: working_def)

text \<open>
  Claim C10. When the raycast stage starts (not cancelled) on a working mesh none of
  whose faces is flagged as large, or with \<open>raycastMaxLength\<close> not greater than 0, it
  subdivides and cleans the working mesh and relocates no vertex: the working mesh it
  leaves is exactly the cleaned subdivision of the one it found. The stage falls through
  to the next one, unless a cancel request arrived while it announced itself.
\<close>

theorem raycast_without_candidates:
  assumes nc: "\<not> cancelRequested s"
    and al: "shrinkModelPD s < nextAddr s"
    and lc: "findLargeCells (working s) (raycastSearchEdgeLength opts) = Inr ids"
    and no: "ids = [] \<or> raycastMaxLength opts \<le> 0"
  shows "working (snd (raycast e opts s)) =
           vtkCleanPolyData e
             (vtkAdaptiveSubdivisionFilter e (raycastOutputEdgeLength opts) (working s)) \<and>
         fst (raycast e opts s) =
           (if clicks e (length (progress s)) then Returned False else Continue)"
proof -
  from lc have lc': "findLargeCells (working (logCallback e Raycasting s))
       (raycastSearchEdgeLength opts) = Inr ids" by simp
  from no have no': "\<not> (length ids > 0 \<and> raycastMaxLength opts > 0)" by auto
  show ?thesis
  proof (cases "clicks e (length (progress s))")
    case True
    then have c: "cancelRequested (subdivided e opts ids s)"
      by (simp add: cancelRequested_subdivided)
    show ?thesis
      unfolding raycast_cancelled_second [OF nc lc' c]
      using True working_subdivided [OF al] by simp
  next
    case False
    with nc have c: "\<not> cancelRequested (subdivided e opts ids s)"
      by (simp add: cancelRequested_subdivided)
    show ?thesis
      unfolding raycast_no_candidates [OF nc lc' c no']
      using False working_subdivided [OF al] by simp
  qed
qed

lemma runStages_quiet_step:
  assumes "quiet s (f s)" and "\<forall>err. fst (runStages (f # fs) s) \<noteq> Raised err"
  shows "fst (f s) = Continue \<and> runStages (f # fs) s = runStages fs (snd (f s))"
proof -
  obtain oc s' where r: "f s = (oc, s')" by (cases "f s")
  show ?thesis
  proof (cases oc)
    case Continue
    with r show ?thesis by simp
  next
    case (Returned b)
    with assms(1) r show ?thesis by (auto simp: quiet_def)
  next
    case (Raised err)
    with assms(2) r show ?thesis by simp
  qed
qed

lemma runStages_dispatch_skip:
  "filterMode opts \<noteq> mode \<Longrightarrow> runStages (dispatch mode e opts # fs) s = runStages fs s"
  by (simp add: dispatch_def)

lemma prepare_quiet:
  "noClicks e \<Longrightarrow> \<not> cancelRequested (prepare e opts s)"
  "errorLog (prepare e opts s) = errorLog s"
  by (simp_all add: prepare_def Let_def case_prod_beta noClicks_def)

lemma nonmanifold_run:
  assumes nm: "filterMode opts = MODE_NONMANIFOLD" and seg: "outputType opts = OUTPUT_SEGMENTATION"
    and nk: "noClicks e" and nr: "\<forall>err. fst (ApplySRSFilter e opts s) \<noteq> Raised err"
  shows "Raycasting \<in> set (progress (snd (ApplySRSFilter e opts s))) \<and>
         RemovingCaps \<in> set (progress (snd (ApplySRSFilter e opts s))) \<and>
         errorLog (snd (ApplySRSFilter e opts s)) = errorLog s @ [SEGMENTATION_NOT_POSSIBLE]"
proof -
  let ?s0 = "prepare e opts s"
  let ?s1 = "snd (firstShrinkwrap e opts ?s0)"
  let ?s2 = "snd (raycast e opts ?s1)"
  let ?s3 = "snd (secondShrinkwrap e opts ?s2)"
  let ?s4 = "snd (removeCaps e opts ?s3)"
  let ?rest1 = "[dispatch MODE_CONVEXHULL e opts, raycast e opts, dispatch MODE_RAYCASTS e opts,
      secondShrinkwrap e opts, dispatch MODE_DEEPHULL e opts, removeCaps e opts,
      dispatchNonmanifold e opts, solidify e opts]"
  let ?rest2 = "[dispatch MODE_RAYCASTS e opts,
      secondShrinkwrap e opts, dispatch MODE_DEEPHULL e opts, removeCaps e opts,
      dispatchNonmanifold e opts, solidify e opts]"
  let ?rest3 = "[dispatch MODE_DEEPHULL e opts, removeCaps e opts,
      dispatchNonmanifold e opts, solidify e opts]"
  let ?rest4 = "[dispatchNonmanifold e opts, solidify e opts]"
  have run: "ApplySRSFilter e opts s = runStages (firstShrinkwrap e opts # ?rest1) ?s0"
    by (simp add: ApplySRSFilter_def pipeline_def)
  have m: "filterMode opts \<noteq> MODE_CONVEXHULL" "filterMode opts \<noteq> MODE_RAYCASTS"
    "filterMode opts \<noteq> MODE_DEEPHULL"
    using nm MODE_distinct by simp_all
  have c0: "\<not> cancelRequested ?s0" using nk by (rule prepare_quiet)
  have q1: "quiet ?s0 (firstShrinkwrap e opts ?s0)"
    unfolding firstShrinkwrap_def using nk c0 by (rule firstLoop_quiet)
  have nr0: "\<forall>err. fst (runStages (firstShrinkwrap e opts # ?rest1) ?s0) \<noteq> Raised err"
    using nr unfolding run .
  from runStages_quiet_step [where f = "firstShrinkwrap e opts" and s = ?s0, OF q1 nr0]
  have k1: "fst (firstShrinkwrap e opts ?s0) = Continue"
    and run1: "ApplySRSFilter e opts s = runStages (raycast e opts # ?rest2) ?s1"
    unfolding run runStages_dispatch_skip [OF m(1)] by blast+
  from q1 k1 have c1: "\<not> cancelRequested ?s1" and e1: "errorLog ?s1 = errorLog ?s0"
    by (simp_all add: quiet_def)
  note q2 = raycast_quiet [OF nk c1, of opts]
  have nr1: "\<forall>err. fst (runStages (raycast e opts # ?rest2) ?s1) \<noteq> Raised err"
    using nr unfolding run1 .
  from runStages_quiet_step [where f = "raycast e opts" and s = ?s1, OF q2 [THEN conjunct1] nr1]
  have k2: "fst (raycast e opts ?s1) = Continue"
    and run2: "ApplySRSFilter e opts s = runStages (secondShrinkwrap e opts # ?rest3) ?s2"
    unfolding run1 runStages_dispatch_skip [OF m(2)] by blast+
  from q2 k2 have c2: "\<not> cancelRequested ?s2" and e2: "errorLog ?s2 = errorLog ?s1"
    and p2: "Raycasting \<in> set (progress ?s2)"
    by (simp_all add: quiet_def)
  have q3: "quiet ?s2 (secondShrinkwrap e opts ?s2)"
    using nk c2 by (rule secondShrinkwrap_quiet)
  have nr2: "\<forall>err. fst (runStages (secondShrinkwrap e opts # ?rest3) ?s2) \<noteq> Raised err"
    using nr unfolding run2 .
  from runStages_quiet_step [where f = "secondShrinkwrap e opts" and s = ?s2, OF q3 nr2]
  have k3: "fst (secondShrinkwrap e opts ?s2) = Continue"
    and run3: "ApplySRSFilter e opts s = runStages (removeCaps e opts # ?rest4) ?s3"
    unfolding run2 runStages_dispatch_skip [OF m(3)] by blast+
  from q3 k3 have c3: "\<not> cancelRequested ?s3" and e3: "errorLog ?s3 = errorLog ?s2"
    and p3: "set (progress ?s2) \<subseteq> set (progress ?s3)"
    by (simp_all add: quiet_def)
  note q4 = removeCaps_quiet [OF nk c3, of opts]
  have nr3: "\<forall>err. fst (runStages (removeCaps e opts # ?rest4) ?s3) \<noteq> Raised err"
    using nr unfolding run3 .
  from runStages_quiet_step [where f = "removeCaps e opts" and s = ?s3, OF q4 [THEN conjunct1] nr3]
  have k4: "fst (removeCaps e opts ?s3) = Continue"
    and run4: "ApplySRSFilter e opts s = runStages ?rest4 ?s4"
    unfolding run3 by blast+
  from q4 k4 have e4: "errorLog ?s4 = errorLog ?s3"
    and p4: "set (progress ?s3) \<subseteq> set (progress ?s4)"
    and p4': "RemovingCaps \<in> set (progress ?s4)"
    by (simp_all add: quiet_def)
  have fin: "ApplySRSFilter e opts s =
      (Returned True, cleanup e (logError SEGMENTATION_NOT_POSSIBLE ?s4))"
    unfolding run4 using nm seg by (simp add: dispatchNonmanifold_def)
  have "errorLog ?s4 = errorLog s"
    using e4 e3 e2 e1 prepare_quiet(2) [of e opts s] by simp
  moreover have "Raycasting \<in> set (progress ?s4)" using p2 p3 p4 by blast
  ultimately show ?thesis
    unfolding fin using p4' by simp
qed

text \<open>
  Claim C1, as the code has it. A run configured with \<open>filterMode = NONMANIFOLD\<close> and
  \<open>outputType = SEGMENTATION\<close> commits no output: the only calls it makes on the
  caller's objects are those of the preparation at run start. There is no check before the
  stages: if nobody cancels and nothing raises, the run goes through the shrinkwrap, raycast
  and cap-removal stages and only then logs the error that the combination is not possible.
\<close>

theorem nonmanifold_segmentation_commits_nothing:
  assumes nm: "filterMode opts = MODE_NONMANIFOLD" and seg: "outputType opts = OUTPUT_SEGMENTATION"
  shows "calls (snd (ApplySRSFilter e opts s)) =
           calls s @ [SetConversionParameter (smoothingFactor opts),
                      RemoveClosedSurfaceRepresentation, CreateClosedSurfaceRepresentation,
                      Modified] @
           (if hasDisplayNode e then [UpdateScene] else []) @ [Modified] \<and>
         (noClicks e \<longrightarrow> (\<forall>err. fst (ApplySRSFilter e opts s) \<noteq> Raised err) \<longrightarrow>
            Raycasting \<in> set (progress (snd (ApplySRSFilter e opts s))) \<and>
            RemovingCaps \<in> set (progress (snd (ApplySRSFilter e opts s))) \<and>
            errorLog (snd (ApplySRSFilter e opts s)) = errorLog s @ [SEGMENTATION_NOT_POSSIBLE])"
proof -
  from run_finished [of e s opts] nm seg
  have "calls (snd (ApplySRSFilter e opts s)) = calls (prepare e opts s)"
    by (simp add: finished_def)
  then show ?thesis
    using nonmanifold_run [OF nm seg] by (simp only: prepare_calls) blast
qed

lemmas run_defs =
  ApplySRSFilter_def pipeline_def prepare_def firstShrinkwrap_def raycast_def
  secondShrinkwrap_def removeCaps_def solidify_def dispatch_def dispatchOutput_def
  dispatchNonmanifold_def polydataToModel_def polydataToSegment_def remeshPolydata_def
  whiteImage_def remeshDims_def remeshDim_def SetExtent_def SetDimensions_def vtkImageData_def
  exampleEnv_def exampleState_def exampleOptions_def exampleMesh_def defaultOptions_def
  py_int_def working_def inputSurface_def newPolyData_def DeepCopy_def logCallback_def
  cleanup_def logError_def Let_def case_prod_beta
  OUTPUT_MODEL_def OUTPUT_SEGMENTATION_def MODE_CONVEXHULL_def MODE_RAYCASTS_def
  MODE_DEEPHULL_def MODE_NONMANIFOLD_def MODE_SOLIDIFIED_def
  shrinkwrapPoints_map newLocation_def findLargeCells_def cellPoints_def edgeLength_def
  removeCapCells_def RemoveDeletedCells_def deletedCells_def toOut_def

lemma run_cancelled:
  "fst (ApplySRSFilter (exampleEnv (\<lambda>k. k = 1)) (exampleOptions MODE_CONVEXHULL OUTPUT_MODEL 2)
          exampleState) = Returned False"
  "progress (snd (ApplySRSFilter (exampleEnv (\<lambda>k. k = 1)) (exampleOptions MODE_CONVEXHULL OUTPUT_MODEL 2)
          exampleState)) = [Started, Shrinkwrapping 1 2, Cleared]"
  "calls (snd (ApplySRSFilter (exampleEnv (\<lambda>k. k = 1)) (exampleOptions MODE_CONVEXHULL OUTPUT_MODEL 2)
          exampleState)) =
     [SetConversionParameter (1 / 5), RemoveClosedSurfaceRepresentation,
      CreateClosedSurfaceRepresentation, Modified, Modified]"
  by (simp_all add: run_defs eval_nat_numeral)

lemma run_unknown_output:
  "fst (ApplySRSFilter (exampleEnv (\<lambda>k. False)) (exampleOptions MODE_CONVEXHULL ''PICTURE'' 1)
          exampleState) = Returned False"
  "errorLog (snd (ApplySRSFilter (exampleEnv (\<lambda>k. False)) (exampleOptions MODE_CONVEXHULL ''PICTURE'' 1)
          exampleState)) = [''unknown outputType'']"
  "calls (snd (ApplySRSFilter (exampleEnv (\<lambda>k. False)) (exampleOptions MODE_CONVEXHULL ''PICTURE'' 1)
          exampleState)) =
     [SetConversionParameter (1 / 5), RemoveClosedSurfaceRepresentation,
      CreateClosedSurfaceRepresentation, Modified, Modified]"
  by (simp_all add: run_defs)

lemma run_nonmanifold_segmentation:
  "fst (ApplySRSFilter (exampleEnv (\<lambda>k. False))
          (exampleOptions MODE_NONMANIFOLD OUTPUT_SEGMENTATION 1) exampleState) = Returned True"
  "progress (snd (ApplySRSFilter (exampleEnv (\<lambda>k. False))
          (exampleOptions MODE_NONMANIFOLD OUTPUT_SEGMENTATION 1) exampleState)) =
     [Started, Shrinkwrapping 1 1, Raycasting, Remeshing 1 1, RemovingCaps, Cleared]"
  "errorLog (snd (ApplySRSFilter (exampleEnv (\<lambda>k. False))
          (exampleOptions MODE_NONMANIFOLD OUTPUT_SEGMENTATION 1) exampleState)) =
     [SEGMENTATION_NOT_POSSIBLE]"
  "working (prepare (exampleEnv (\<lambda>k. False))
          (exampleOptions MODE_NONMANIFOLD OUTPUT_SEGMENTATION 1) exampleState) = exampleMesh"
  "working (snd (ApplySRSFilter (exampleEnv (\<lambda>k. False))
          (exampleOptions MODE_NONMANIFOLD OUTPUT_SEGMENTATION 1) exampleState)) =
     \<lparr>points = [(0, 0, 0), (0, 0, 0), (0, 0, 0)], cells = [(5, [0, 1, 2])]\<rparr>"
  by (simp_all add: run_defs)

lemma run_cancelled_at_dispatch:
  "fst (ApplySRSFilter (exampleEnv (\<lambda>k. k = 1)) (exampleOptions MODE_CONVEXHULL OUTPUT_MODEL 1)
          exampleState) = Returned True"
  "progress (snd (ApplySRSFilter (exampleEnv (\<lambda>k. k = 1)) (exampleOptions MODE_CONVEXHULL OUTPUT_MODEL 1)
          exampleState)) = [Started, Shrinkwrapping 1 1, Cleared, Cleared]"
  by (simp_all add: run_defs)

subsection \<open>The claims on the run, at concrete inputs\<close>

text \<open>
  The claim C1 as stated fails: in the small world, the run with \<open>NONMANIFOLD\<close> and
  \<open>SEGMENTATION\<close> announces and executes the shrinkwrap, raycast, remesh and cap-removal
  stages (the working mesh, at first the sphere, ends with every vertex on the input
  surface) and returns \<open>True\<close>.
\<close>

theorem nonmanifold_segmentation_counterexample:
  "fst (ApplySRSFilter (exampleEnv (\<lambda>k. False))
          (exampleOptions MODE_NONMANIFOLD OUTPUT_SEGMENTATION 1) exampleState) = Returned True \<and>
   progress (snd (ApplySRSFilter (exampleEnv (\<lambda>k. False))
          (exampleOptions MODE_NONMANIFOLD OUTPUT_SEGMENTATION 1) exampleState)) =
     [Started, Shrinkwrapping 1 1, Raycasting, Remeshing 1 1, RemovingCaps, Cleared] \<and>
   working (prepare (exampleEnv (\<lambda>k. False))
          (exampleOptions MODE_NONMANIFOLD OUTPUT_SEGMENTATION 1) exampleState) =
     \<lparr>points = [(0, 0, 0), (1, 0, 0), (1, 1, 0)], cells = [(5, [0, 1, 2])]\<rparr> \<and>
   working (snd (ApplySRSFilter (exampleEnv (\<lambda>k. False))
          (exampleOptions MODE_NONMANIFOLD OUTPUT_SEGMENTATION 1) exampleState)) =
     \<lparr>points = [(0, 0, 0), (0, 0, 0), (0, 0, 0)], cells = [(5, [0, 1, 2])]\<rparr>"
  using run_nonmanifold_segmentation by (simp add: exampleMesh_def)

theorem nonmanifold_segmentation_commits_nothing_witness:
  "calls (snd (ApplySRSFilter (exampleEnv (\<lambda>k. False))
          (exampleOptions MODE_NONMANIFOLD OUTPUT_SEGMENTATION 1) exampleState)) =
     [SetConversionParameter (1 / 5), RemoveClosedSurfaceRepresentation,
      CreateClosedSurfaceRepresentation, Modified, Modified] \<and>
   Raycasting \<in> set (progress (snd (ApplySRSFilter (exampleEnv (\<lambda>k. False))
          (exampleOptions MODE_NONMANIFOLD OUTPUT_SEGMENTATION 1) exampleState))) \<and>
   RemovingCaps \<in> set (progress (snd (ApplySRSFilter (exampleEnv (\<lambda>k. False))
          (exampleOptions MODE_NONMANIFOLD OUTPUT_SEGMENTATION 1) exampleState))) \<and>
   errorLog (snd (ApplySRSFilter (exampleEnv (\<lambda>k. False))
          (exampleOptions MODE_NONMANIFOLD OUTPUT_SEGMENTATION 1) exampleState)) =
     [SEGMENTATION_NOT_POSSIBLE]"
proof -
  let ?e = "exampleEnv (\<lambda>k. False)"
  let ?o = "exampleOptions MODE_NONMANIFOLD OUTPUT_SEGMENTATION 1"
  have nm: "filterMode ?o = MODE_NONMANIFOLD" and seg: "outputType ?o = OUTPUT_SEGMENTATION"
    by (simp_all add: exampleOptions_def)
  have nk: "noClicks ?e" by (simp add: noClicks_def exampleEnv_def)
  have nr: "\<forall>err. fst (ApplySRSFilter ?e ?o exampleState) \<noteq> Raised err"
    by (simp add: run_nonmanifold_segmentation(1))
  have sf: "smoothingFactor ?o = 1 / 5" "\<not> hasDisplayNode ?e" "calls exampleState = []"
    "errorLog exampleState = []"
    by (simp_all add: exampleOptions_def defaultOptions_def exampleEnv_def exampleState_def)
  from nonmanifold_segmentation_commits_nothing [OF nm seg, of ?e exampleState] nk nr
  show ?thesis by (simp only: sf if_False append_Nil append_Nil2 append.simps) simp
qed

text \<open>
  The claim C2 as stated fails. A run cancelled during its first shrinkwrap returns
  \<open>False\<close>, which is also what a run returns that fails on an unknown output type; and
  the cancelled run has by then changed the segmentation node: the initial state records
  no call, the final state the calls of the preparation.
\<close>

theorem cancellation_counterexample:
  "fst (ApplySRSFilter (exampleEnv (\<lambda>k. k = 1)) (exampleOptions MODE_CONVEXHULL OUTPUT_MODEL 2)
          exampleState) = Returned False \<and>
   fst (ApplySRSFilter (exampleEnv (\<lambda>k. False)) (exampleOptions MODE_CONVEXHULL ''PICTURE'' 1)
          exampleState) = Returned False \<and>
   calls exampleState = [] \<and>
   calls (snd (ApplySRSFilter (exampleEnv (\<lambda>k. k = 1)) (exampleOptions MODE_CONVEXHULL OUTPUT_MODEL 2)
          exampleState)) =
     [SetConversionParameter (1 / 5), RemoveClosedSurfaceRepresentation,
      CreateClosedSurfaceRepresentation, Modified, Modified]"
  using run_cancelled run_unknown_output(1) by (simp add: exampleState_def)

theorem cancellation_commits_nothing_witness:
  "clicks (exampleEnv (\<lambda>k. k = 1)) 1 \<and>
   progress (snd (ApplySRSFilter (exampleEnv (\<lambda>k. k = 1))
          (exampleOptions MODE_CONVEXHULL OUTPUT_MODEL 2) exampleState)) ! 1 = Shrinkwrapping 1 2 \<and>
   (\<exists>b. fst (ApplySRSFilter (exampleEnv (\<lambda>k. k = 1))
          (exampleOptions MODE_CONVEXHULL OUTPUT_MODEL 2) exampleState) = Returned b) \<and>
   set (drop (Suc 1) (progress (snd (ApplySRSFilter (exampleEnv (\<lambda>k. k = 1))
          (exampleOptions MODE_CONVEXHULL OUTPUT_MODEL 2) exampleState)))) \<subseteq> {Cleared} \<and>
   calls (snd (ApplySRSFilter (exampleEnv (\<lambda>k. k = 1))
          (exampleOptions MODE_CONVEXHULL OUTPUT_MODEL 2) exampleState)) =
     [SetConversionParameter (1 / 5), RemoveClosedSurfaceRepresentation,
      CreateClosedSurfaceRepresentation, Modified, Modified]"
proof -
  let ?e = "exampleEnv (\<lambda>k. k = 1)"
  let ?o = "exampleOptions MODE_CONVEXHULL OUTPUT_MODEL 2"
  let ?r = "ApplySRSFilter ?e ?o exampleState"
  have h1: "length (progress exampleState) \<le> 1" by (simp add: exampleState_def)
  have h2: "clicks ?e 1" by (simp add: exampleEnv_def)
  have h3: "Suc 1 < length (progress (snd ?r))" unfolding run_cancelled(2) by simp
  have h4: "progress (snd ?r) ! 1 \<noteq> CreatingModel"
    and h5: "progress (snd ?r) ! 1 \<noteq> UpdatingSegmentation"
    and h6: "progress (snd ?r) ! 1 = Shrinkwrapping 1 2"
    unfolding run_cancelled(2) by simp_all
  have sf: "smoothingFactor ?o = 1 / 5" "\<not> hasDisplayNode ?e" "calls exampleState = []"
    by (simp_all add: exampleOptions_def defaultOptions_def exampleEnv_def exampleState_def)
  from cancellation_commits_nothing [OF h1 h2 h3 h4 h5]
  have "(\<exists>b. fst ?r = Returned b) \<and> set (drop (Suc 1) (progress (snd ?r))) \<subseteq> {Cleared} \<and>
        calls (snd ?r) =
          calls exampleState @ [SetConversionParameter (smoothingFactor ?o),
             RemoveClosedSurfaceRepresentation, CreateClosedSurfaceRepresentation, Modified] @
          (if hasDisplayNode ?e then [UpdateScene] else []) @ [Modified]"
    by blast
  then have "(\<exists>b. fst ?r = Returned b) \<and> set (drop (Suc 1) (progress (snd ?r))) \<subseteq> {Cleared} \<and>
        calls (snd ?r) = [SetConversionParameter (1 / 5), RemoveClosedSurfaceRepresentation,
          CreateClosedSurfaceRepresentation, Modified, Modified]"
    by (simp only: sf if_False append_Nil append.simps)
  with h2 h6 show ?thesis by blast
qed

text \<open>
  The raycast stage on the one-triangle mesh with the default search edge length of 20:
  no face is large, the stage falls through and leaves the cleaned subdivision of the
  mesh, which in the small world is the mesh itself.
\<close>

theorem raycast_without_candidates_witness:
  "findLargeCells (working exampleState)
     (raycastSearchEdgeLength (exampleOptions MODE_SOLIDIFIED OUTPUT_MODEL 1)) = Inr [] \<and>
   working (snd (raycast (exampleEnv (\<lambda>k. False)) (exampleOptions MODE_SOLIDIFIED OUTPUT_MODEL 1)
                   exampleState)) = exampleMesh \<and>
   fst (raycast (exampleEnv (\<lambda>k. False)) (exampleOptions MODE_SOLIDIFIED OUTPUT_MODEL 1)
          exampleState) = Continue"
proof -
  let ?e = "exampleEnv (\<lambda>k. False)"
  let ?o = "exampleOptions MODE_SOLIDIFIED OUTPUT_MODEL 1"
  have nc: "\<not> cancelRequested exampleState"
    and al: "shrinkModelPD exampleState < nextAddr exampleState"
    by (simp_all add: exampleState_def)
  have lc: "findLargeCells (working exampleState) (raycastSearchEdgeLength ?o) = Inr []"
    by (simp add: findLargeCells_def working_def exampleState_def exampleMesh_def
        exampleOptions_def defaultOptions_def cellPoints_def edgeLength_def)
  have w: "working exampleState = exampleMesh"
    by (simp add: working_def exampleState_def)
  from raycast_without_candidates [OF nc al lc, of ?e] lc w
  show ?thesis by (simp add: exampleEnv_def)
qed

end
